theory Spec2Isabelle
  imports Main "HOL-Library.Word"
begin

unbundle bit_operations_syntax

section \<open>Machine model\<close>

text \<open>
  The file-system server of \<^verbatim>\<open>fs/fs.c\<close> runs in one user environment. Its memory is a
  byte-addressed store over 32-bit virtual addresses; \<^verbatim>\<open>u_int\<close> is a 32-bit word that is
  read and written as four consecutive bytes (the byte order is the one of section 6.3 of
  the specification; no theorem below depends on it beyond \<open>rd32\<close> and \<open>wr32\<close> being
  inverse to each other).
\<close>

type_synonym byte = "8 word"
type_synonym u_int = "32 word"

definition rd32 :: "(nat \<Rightarrow> byte) \<Rightarrow> nat \<Rightarrow> u_int" where
  "rd32 m a = ucast (m a) OR push_bit 8 (ucast (m (a + 1))) OR push_bit 16 (ucast (m (a + 2)))
                OR push_bit 24 (ucast (m (a + 3)))"

definition wr32 :: "(nat \<Rightarrow> byte) \<Rightarrow> nat \<Rightarrow> u_int \<Rightarrow> (nat \<Rightarrow> byte)" where
  "wr32 m a v = m(a := ucast v, a + 1 := ucast (drop_bit 8 v),
                  a + 2 := ucast (drop_bit 16 v), a + 3 := ucast (drop_bit 24 v))"

subsection \<open>Constants\<close>

text \<open>
  \<^verbatim>\<open>include/fs.h\<close> is among the sources. \<^verbatim>\<open>mmu.h\<close>, \<^verbatim>\<open>fs/fs.h\<close> and \<^verbatim>\<open>error.h\<close> are
  not: the page size, the permission bits, the address-space limits, the base of the disk
  window, its size and the sector size below are the values of the operating system these
  sources belong to. The permission bits are four distinct single bits, as section 6.1 of the
  specification requires.
\<close>

abbreviation (input) BY2PG :: nat where "BY2PG \<equiv> 4096"
abbreviation (input) BY2BLK :: nat where "BY2BLK \<equiv> BY2PG"
abbreviation (input) BIT2BLK :: nat where "BIT2BLK \<equiv> BY2BLK * 8"
abbreviation (input) MAXNAMELEN :: nat where "MAXNAMELEN \<equiv> 128"
abbreviation (input) NDIRECT :: nat where "NDIRECT \<equiv> 10"
abbreviation (input) NINDIRECT :: nat where "NINDIRECT \<equiv> BY2BLK div 4"
abbreviation (input) BY2FILE :: nat where "BY2FILE \<equiv> 256"
abbreviation (input) FILE2BLK :: nat where "FILE2BLK \<equiv> BY2BLK div BY2FILE"
abbreviation (input) FTYPE_DIR :: u_int where "FTYPE_DIR \<equiv> 1"

abbreviation (input) BY2SECT :: nat where "BY2SECT \<equiv> 512"
abbreviation (input) SECT2BLK :: nat where "SECT2BLK \<equiv> BY2BLK div BY2SECT"
abbreviation (input) DISKMAP :: nat where "DISKMAP \<equiv> 0x10000000"
abbreviation (input) DISKMAX :: nat where "DISKMAX \<equiv> 0x40000000"
abbreviation (input) UTOP :: nat where "UTOP \<equiv> 0x7f400000"

abbreviation (input) PTE_V :: u_int where "PTE_V \<equiv> 0x200"
abbreviation (input) PTE_R :: u_int where "PTE_R \<equiv> 0x400"
abbreviation (input) PTE_COW :: u_int where "PTE_COW \<equiv> 0x001"
abbreviation (input) PTE_LIBRARY :: u_int where "PTE_LIBRARY \<equiv> 0x004"

definition PDX :: "nat \<Rightarrow> nat" where "PDX va = va div 4194304"
definition VPN :: "nat \<Rightarrow> nat" where "VPN va = va div BY2PG"

text \<open>Byte offsets of the fields of \<^verbatim>\<open>struct File\<close> and \<^verbatim>\<open>struct Super\<close>.\<close>

abbreviation (input) OFF_f_name :: nat where "OFF_f_name \<equiv> 0"
abbreviation (input) OFF_f_size :: nat where "OFF_f_size \<equiv> 128"
abbreviation (input) OFF_f_type :: nat where "OFF_f_type \<equiv> 132"
abbreviation (input) OFF_f_direct :: nat where "OFF_f_direct \<equiv> 136"
abbreviation (input) OFF_f_indirect :: nat where "OFF_f_indirect \<equiv> 176"
abbreviation (input) OFF_f_dir :: nat where "OFF_f_dir \<equiv> 180"
abbreviation (input) OFF_s_nblocks :: nat where "OFF_s_nblocks \<equiv> 4"
abbreviation (input) OFF_s_root :: nat where "OFF_s_root \<equiv> 8"

subsection \<open>Outcomes\<close>

text \<open>
  A C function of the server either returns, possibly a negative error code, or does not
  return at all: \<^verbatim>\<open>user_panic\<close> and a failed \<^verbatim>\<open>user_assert\<close> stop the server, and so does a
  load or store through a null pointer or into a page that is not mapped.
\<close>

datatype err = E_INVAL | E_NO_MEM | E_NO_DISK | E_NOT_FOUND | E_BAD_PATH | E_FILE_EXISTS

datatype abort = Panic | Fault

subsection \<open>State of the server\<close>

record fs =
  mem :: "nat \<Rightarrow> byte"
  vpd :: "nat \<Rightarrow> u_int"
  vpt :: "nat \<Rightarrow> u_int"
  disk :: "nat \<Rightarrow> byte"
  ide_log :: "nat list"
  super :: nat
  bitmap :: nat
  free_pages :: nat
  fresh :: "nat \<Rightarrow> byte"

text \<open>
  \<open>vpd\<close> and \<open>vpt\<close> hold the permission bits of the page-directory and page-table
  entries (the frame number is never read by \<^verbatim>\<open>fs.c\<close>); \<open>disk\<close> is the IDE disk by byte
  offset and \<open>ide_log\<close> the first sector of every write issued so far, oldest first;
  \<open>super\<close> and \<open>bitmap\<close> are the two global pointers, 0 while not loaded.
  \<open>free_pages\<close> and \<open>fresh\<close> stand for the kernel's page allocator, which is not among
  the sources: the number of pages it can still hand out and the contents of a page it
  hands out.
\<close>

definition s_nblocks :: "fs \<Rightarrow> nat" where
  "s_nblocks s = unat (rd32 (mem s) (super s + OFF_s_nblocks))"

section \<open>Kernel calls and the disk driver\<close>

text \<open>
  Modelled from the spec: \<^verbatim>\<open>sys_mem_alloc\<close> and \<^verbatim>\<open>sys_mem_map\<close> are in
  \<^verbatim>\<open>lib/syscall_all.c\<close>, but \<^verbatim>\<open>page_alloc\<close>, \<^verbatim>\<open>page_insert\<close> and \<^verbatim>\<open>pgdir_walk\<close>
  which they call are missing, and so are \<^verbatim>\<open>ide_read\<close> and \<^verbatim>\<open>ide_write\<close>
  (\<^verbatim>\<open>envid2env\<close> is in \<^verbatim>\<open>lib/env.c\<close> and succeeds for environment 0, the caller).
  The checks on the arguments are those of the source; after them \<open>mem_alloc\<close> backs the
  page with a fresh page or fails for lack of memory, \<open>mem_map\<close> aliases the source page
  at the destination with the given permissions, and the driver copies whole sectors
  between the disk and memory (section 6.1). Both calls are made by \<^verbatim>\<open>fs.c\<close> with
  environment 0, the caller itself.
\<close>

definition va_is_mapped :: "fs \<Rightarrow> nat \<Rightarrow> bool" where
  "va_is_mapped s va \<longleftrightarrow> vpd s (PDX va) AND PTE_V \<noteq> 0 \<and> vpt s (VPN va) AND PTE_V \<noteq> 0"

definition syscall_mem_alloc :: "fs \<Rightarrow> nat \<Rightarrow> u_int \<Rightarrow> fs \<times> (err + unit)" where
  "syscall_mem_alloc s va perm =
     (if perm AND PTE_V = 0 \<or> perm AND PTE_COW \<noteq> 0 \<or> va \<ge> UTOP then (s, Inl E_INVAL)
      else if free_pages s = 0 then (s, Inl E_NO_MEM)
      else (s\<lparr>mem := (\<lambda>a. if a div BY2PG = va div BY2PG then fresh s (a mod BY2PG) else mem s a),
              vpd := (vpd s)(PDX va := vpd s (PDX va) OR PTE_V),
              vpt := (vpt s)(VPN va := perm),
              free_pages := free_pages s - 1\<rparr>, Inr ()))"

definition syscall_mem_map :: "fs \<Rightarrow> nat \<Rightarrow> nat \<Rightarrow> u_int \<Rightarrow> abort + fs \<times> (err + unit)" where
  "syscall_mem_map s srcva dstva perm =
     (if perm AND PTE_V = 0 \<or> srcva \<ge> UTOP \<or> dstva \<ge> UTOP then Inl Panic
      else if \<not> va_is_mapped s srcva then Inl Fault
      else Inr (s\<lparr>mem := (\<lambda>a. if a div BY2PG = dstva div BY2PG
                                then mem s (srcva div BY2PG * BY2PG + a mod BY2PG) else mem s a),
                  vpt := (vpt s)(VPN dstva := perm)\<rparr>, Inr ()))"

definition ide_read :: "fs \<Rightarrow> nat \<Rightarrow> nat \<Rightarrow> nat \<Rightarrow> abort + fs" where
  "ide_read s secno va nsecs =
     (if \<not> va_is_mapped s va then Inl Fault
      else Inr (s\<lparr>mem := (\<lambda>a. if va \<le> a \<and> a < va + nsecs * BY2SECT
                                then disk s (secno * BY2SECT + (a - va)) else mem s a)\<rparr>))"

definition ide_write :: "fs \<Rightarrow> nat \<Rightarrow> nat \<Rightarrow> nat \<Rightarrow> abort + fs" where
  "ide_write s secno va nsecs =
     (if \<not> va_is_mapped s va then Inl Fault
      else Inr (s\<lparr>disk := (\<lambda>d. if secno * BY2SECT \<le> d \<and> d < (secno + nsecs) * BY2SECT
                                 then mem s (va + (d - secno * BY2SECT)) else disk s d),
                  ide_log := ide_log s @ [secno]\<rparr>))"

section \<open>Block cache\<close>

definition diskaddr :: "fs \<Rightarrow> nat \<Rightarrow> abort + nat" where
  "diskaddr s blockno =
     (if super s \<noteq> 0 \<and> blockno \<ge> s_nblocks s then Inl Panic
      else Inr ((DISKMAP + blockno * BY2BLK) mod 2 ^ 32))"

definition block_is_mapped :: "fs \<Rightarrow> nat \<Rightarrow> abort + nat" where
  "block_is_mapped s blockno =
     (case diskaddr s blockno of
        Inl a \<Rightarrow> Inl a
      | Inr va \<Rightarrow> Inr (if va_is_mapped s va then va else 0))"

definition va_is_dirty :: "fs \<Rightarrow> nat \<Rightarrow> bool" where
  "va_is_dirty s va = False"

definition block_is_dirty :: "fs \<Rightarrow> nat \<Rightarrow> abort + bool" where
  "block_is_dirty s blockno =
     (case diskaddr s blockno of
        Inl a \<Rightarrow> Inl a
      | Inr va \<Rightarrow> Inr (va_is_mapped s va \<and> va_is_dirty s va))"

definition map_block :: "fs \<Rightarrow> nat \<Rightarrow> abort + fs \<times> (err + unit)" where
  "map_block s blockno =
     (case block_is_mapped s blockno of
        Inl a \<Rightarrow> Inl a
      | Inr m \<Rightarrow>
          if m \<noteq> 0 then Inr (s, Inr ())
          else (case diskaddr s blockno of
                  Inl a \<Rightarrow> Inl a
                | Inr va \<Rightarrow> Inr (syscall_mem_alloc s va (PTE_V OR PTE_R))))"

definition block_is_free :: "fs \<Rightarrow> nat \<Rightarrow> abort + int" where
  "block_is_free s blockno =
     (if super s = 0 \<or> blockno \<ge> s_nblocks s then Inr 0
      else if bitmap s = 0 then Inl Fault
      else if rd32 (mem s) (bitmap s + 4 * (blockno div 32)) AND push_bit (blockno mod 32) 1 \<noteq> 0
           then Inr 1
      else Inr 0)"

definition read_block :: "fs \<Rightarrow> nat \<Rightarrow> abort + fs \<times> (err + nat \<times> nat)" where
  "read_block s blockno =
     (if super s \<noteq> 0 \<and> blockno \<ge> s_nblocks s then Inl Panic
      else case (if bitmap s \<noteq> 0 then block_is_free s blockno else Inr 0) of
        Inl a \<Rightarrow> Inl a
      | Inr fr \<Rightarrow>
          if fr \<noteq> 0 then Inl Panic
          else (case diskaddr s blockno of
                  Inl a \<Rightarrow> Inl a
                | Inr va \<Rightarrow>
                    (case block_is_mapped s blockno of
                       Inl a \<Rightarrow> Inl a
                     | Inr m \<Rightarrow>
                         if m \<noteq> 0 then Inr (s, Inr (va, 0))
                         else (case ide_read (fst (syscall_mem_alloc s va (PTE_V OR PTE_R)))
                                      (blockno * SECT2BLK mod 2 ^ 32) va SECT2BLK of
                                 Inl a \<Rightarrow> Inl a
                               | Inr s' \<Rightarrow> Inr (s', Inr (va, 1))))))"

definition write_block :: "fs \<Rightarrow> nat \<Rightarrow> abort + fs" where
  "write_block s blockno =
     (case block_is_mapped s blockno of
        Inl a \<Rightarrow> Inl a
      | Inr m \<Rightarrow>
          if m = 0 then Inl Panic
          else (case diskaddr s blockno of
                  Inl a \<Rightarrow> Inl a
                | Inr va \<Rightarrow>
                    (case ide_write s (blockno * SECT2BLK mod 2 ^ 32) va SECT2BLK of
                       Inl a \<Rightarrow> Inl a
                     | Inr s1 \<Rightarrow>
                         (case syscall_mem_map s1 va va (PTE_V OR PTE_R OR PTE_LIBRARY) of
                            Inl a \<Rightarrow> Inl a
                          | Inr (s2, r) \<Rightarrow> Inr s2))))"

section \<open>Bitmap allocator\<close>

definition free_block :: "fs \<Rightarrow> nat \<Rightarrow> abort + fs" where
  "free_block s blockno =
     (if blockno = 0 then Inl Panic
      else if bitmap s = 0 then Inl Fault
      else Inr (s\<lparr>mem := wr32 (mem s) (bitmap s + 4 * (blockno div 32))
                            (rd32 (mem s) (bitmap s + 4 * (blockno div 32))
                               OR push_bit (blockno mod 32) 1)\<rparr>))"

text \<open>
  The loop of \<^verbatim>\<open>alloc_block_num\<close>, entered at \<open>blockno\<close>. The loop variable is an
  \<^verbatim>\<open>int\<close>; \<^verbatim>\<open>read_super\<close> rejects a superblock with more than \<^verbatim>\<open>DISKMAX/BY2BLK\<close>
  blocks, so it stays far below \<open>2 ^ 31\<close> and is a natural number here.
\<close>

function alloc_block_num_from :: "fs \<Rightarrow> nat \<Rightarrow> abort + fs \<times> (err + nat)" where
  "alloc_block_num_from s blockno =
     (if super s = 0 then Inl Fault
      else if blockno < s_nblocks s then
        (if bitmap s = 0 then Inl Fault
         else if rd32 (mem s) (bitmap s + 4 * (blockno div 32)) AND push_bit (blockno mod 32) 1 \<noteq> 0
         then (case write_block
                      (s\<lparr>mem := wr32 (mem s) (bitmap s + 4 * (blockno div 32))
                                   (rd32 (mem s) (bitmap s + 4 * (blockno div 32))
                                      AND NOT (push_bit (blockno mod 32) 1))\<rparr>)
                      (blockno div BIT2BLK) of
                 Inl a \<Rightarrow> Inl a
               | Inr s' \<Rightarrow> Inr (s', Inr blockno))
         else alloc_block_num_from s (blockno + 1))
      else Inr (s, Inl E_NO_DISK))"
  by pat_completeness auto
termination
  by (relation "measure (\<lambda>(s, blockno). s_nblocks s - blockno)") auto

declare alloc_block_num_from.simps [simp del]

definition alloc_block_num :: "fs \<Rightarrow> abort + fs \<times> (err + nat)" where
  "alloc_block_num s = alloc_block_num_from s 3"

definition alloc_block :: "fs \<Rightarrow> abort + fs \<times> (err + nat)" where
  "alloc_block s =
     (case alloc_block_num s of
        Inl a \<Rightarrow> Inl a
      | Inr (s1, Inl e) \<Rightarrow> Inr (s1, Inl e)
      | Inr (s1, Inr bno) \<Rightarrow>
          (case map_block s1 bno of
             Inl a \<Rightarrow> Inl a
           | Inr (s2, Inl e) \<Rightarrow>
               (case free_block s2 bno of
                  Inl a \<Rightarrow> Inl a
                | Inr s3 \<Rightarrow> Inr (s3, Inl e))
           | Inr (s2, Inr u) \<Rightarrow> Inr (s2, Inr bno)))"

section \<open>File layer\<close>

text \<open>
  A \<^verbatim>\<open>struct File *\<close> is the address of a 256-byte record in the cache; a slot pointer
  (\<^verbatim>\<open>u_int *\<close>) is the address of a block number, 0 being the null pointer.
\<close>

definition file_block_walk :: "fs \<Rightarrow> nat \<Rightarrow> nat \<Rightarrow> bool \<Rightarrow> abort + fs \<times> (err + nat)" where
  "file_block_walk s f filebno alloc =
     (if filebno < NDIRECT then Inr (s, Inr (f + OFF_f_direct + 4 * filebno))
      else if filebno < NINDIRECT then
        (case (if rd32 (mem s) (f + OFF_f_indirect) = 0 then
                 (if \<not> alloc then Inr (s, Inl E_NOT_FOUND)
                  else (case alloc_block s of
                          Inl a \<Rightarrow> Inl a
                        | Inr (s1, Inl e) \<Rightarrow> Inr (s1, Inl e)
                        | Inr (s1, Inr r) \<Rightarrow>
                            Inr (s1\<lparr>mem := wr32 (mem s1) (f + OFF_f_indirect) (word_of_nat r)\<rparr>,
                                 Inr ())))
               else Inr (s, Inr ())) of
           Inl a \<Rightarrow> Inl a
         | Inr (s1, Inl e) \<Rightarrow> Inr (s1, Inl e)
         | Inr (s1, Inr u) \<Rightarrow>
             (case read_block s1 (unat (rd32 (mem s1) (f + OFF_f_indirect))) of
                Inl a \<Rightarrow> Inl a
              | Inr (s2, Inl e) \<Rightarrow> Inr (s2, Inl e)
              | Inr (s2, Inr (blk, isnew)) \<Rightarrow>
                  if blk = 0 then Inl Panic else Inr (s2, Inr (blk + 4 * filebno))))
      else Inr (s, Inl E_INVAL))"

definition file_map_block :: "fs \<Rightarrow> nat \<Rightarrow> nat \<Rightarrow> bool \<Rightarrow> abort + fs \<times> (err + nat)" where
  "file_map_block s f filebno alloc =
     (case file_block_walk s f filebno alloc of
        Inl a \<Rightarrow> Inl a
      | Inr (s1, Inl e) \<Rightarrow> Inr (s1, Inl e)
      | Inr (s1, Inr ptr) \<Rightarrow>
          if rd32 (mem s1) ptr = 0 then
            (if \<not> alloc then Inr (s1, Inl E_NOT_FOUND)
             else (case alloc_block s1 of
                     Inl a \<Rightarrow> Inl a
                   | Inr (s2, Inl e) \<Rightarrow> Inr (s2, Inl e)
                   | Inr (s2, Inr r) \<Rightarrow>
                       Inr (s2\<lparr>mem := wr32 (mem s2) ptr (word_of_nat r)\<rparr>,
                            Inr (unat (rd32 (wr32 (mem s2) ptr (word_of_nat r)) ptr)))))
          else Inr (s1, Inr (unat (rd32 (mem s1) ptr))))"

text \<open>
  \<^verbatim>\<open>file_clear_block\<close> starts from \<^verbatim>\<open>ptr = NULL\<close> and goes on to \<^verbatim>\<open>*ptr\<close> when the walk
  returned \<^verbatim>\<open>-E_NOT_FOUND\<close>, which leaves \<^verbatim>\<open>ptr\<close> as it was. \<open>load32\<close> is a load through
  a pointer that may be null, and \<open>clear_slot\<close> is what the function does after the walk,
  with the value \<^verbatim>\<open>ptr\<close> has by then.
\<close>

definition load32 :: "fs \<Rightarrow> nat \<Rightarrow> abort + u_int" where
  "load32 s p = (if p = 0 then Inl Fault else Inr (rd32 (mem s) p))"

definition clear_slot :: "fs \<Rightarrow> nat \<Rightarrow> abort + fs \<times> (err + unit)" where
  "clear_slot s ptr =
     (case load32 s ptr of
        Inl a \<Rightarrow> Inl a
      | Inr v \<Rightarrow>
          if v \<noteq> 0 then
            (case free_block s (unat v) of
               Inl a \<Rightarrow> Inl a
             | Inr s2 \<Rightarrow> Inr (s2\<lparr>mem := wr32 (mem s2) ptr 0\<rparr>, Inr ()))
          else Inr (s, Inr ()))"

definition file_clear_block :: "fs \<Rightarrow> nat \<Rightarrow> nat \<Rightarrow> abort + fs \<times> (err + unit)" where
  "file_clear_block s f filebno =
     (case file_block_walk s f filebno False of
        Inl a \<Rightarrow> Inl a
      | Inr (s1, Inl e) \<Rightarrow> if e \<noteq> E_NOT_FOUND then Inr (s1, Inl e) else clear_slot s1 0
      | Inr (s1, Inr ptr) \<Rightarrow> clear_slot s1 ptr)"

definition file_get_block :: "fs \<Rightarrow> nat \<Rightarrow> nat \<Rightarrow> abort + fs \<times> (err + nat)" where
  "file_get_block s f filebno =
     (case file_map_block s f filebno True of
        Inl a \<Rightarrow> Inl a
      | Inr (s1, Inl e) \<Rightarrow> Inr (s1, Inl e)
      | Inr (s1, Inr diskbno) \<Rightarrow>
          (case read_block s1 diskbno of
             Inl a \<Rightarrow> Inl a
           | Inr (s2, Inl e) \<Rightarrow> Inr (s2, Inl e)
           | Inr (s2, Inr (blk, isnew)) \<Rightarrow> Inr (s2, Inr blk)))"

text \<open>
  The number of blocks of a file of \<open>sz\<close> bytes, \<^verbatim>\<open>(size + BY2BLK - 1) / BY2BLK\<close> in
  \<^verbatim>\<open>u_int\<close> arithmetic: the sum wraps around.
\<close>

definition nblocks_of :: "u_int \<Rightarrow> nat" where
  "nblocks_of sz = unat ((sz + word_of_nat (BY2BLK - 1)) div word_of_nat BY2BLK)"

section \<open>Directories and paths\<close>

text \<open>
  A string argument is the list of the bytes before its terminating NUL; a string in
  memory is compared and written byte by byte, as \<^verbatim>\<open>strcmp\<close> and \<^verbatim>\<open>strcpy\<close> do.
\<close>

fun str_eq :: "(nat \<Rightarrow> byte) \<Rightarrow> nat \<Rightarrow> byte list \<Rightarrow> bool" where
  "str_eq m p [] = (m p = 0)"
| "str_eq m p (c # cs) = (m p = c \<and> str_eq m (p + 1) cs)"

fun strcpy :: "(nat \<Rightarrow> byte) \<Rightarrow> nat \<Rightarrow> byte list \<Rightarrow> (nat \<Rightarrow> byte)" where
  "strcpy m p [] = m(p := 0)"
| "strcpy m p (c # cs) = strcpy (m(p := c)) (p + 1) cs"

function find_name :: "(nat \<Rightarrow> byte) \<Rightarrow> nat \<Rightarrow> byte list \<Rightarrow> nat \<Rightarrow> nat option" where
  "find_name m blk name j =
     (if j < FILE2BLK then
        (if str_eq m (blk + j * BY2FILE + OFF_f_name) name then Some (blk + j * BY2FILE)
         else find_name m blk name (j + 1))
      else None)"
  by pat_completeness auto
termination
  by (relation "measure (\<lambda>(m, blk, name, j). FILE2BLK - j)") auto

declare find_name.simps [simp del]

function dir_lookup_from :: "fs \<Rightarrow> nat \<Rightarrow> byte list \<Rightarrow> nat \<Rightarrow> nat \<Rightarrow> abort + fs \<times> (err + nat)" where
  "dir_lookup_from s dir name nblock i =
     (if i < nblock then
        (case file_get_block s dir i of
           Inl a \<Rightarrow> Inl a
         | Inr (s1, Inl e) \<Rightarrow> Inr (s1, Inl e)
         | Inr (s1, Inr blk) \<Rightarrow>
             (case find_name (mem s1) blk name 0 of
                Some fj \<Rightarrow> Inr (s1\<lparr>mem := wr32 (mem s1) (fj + OFF_f_dir) (word_of_nat dir)\<rparr>, Inr fj)
              | None \<Rightarrow> dir_lookup_from s1 dir name nblock (i + 1)))
      else Inr (s, Inl E_NOT_FOUND))"
  by pat_completeness auto
termination
  by (relation "measure (\<lambda>(s, dir, name, nblock, i). nblock - i)") auto

declare dir_lookup_from.simps [simp del]

definition dir_lookup :: "fs \<Rightarrow> nat \<Rightarrow> byte list \<Rightarrow> abort + fs \<times> (err + nat)" where
  "dir_lookup s dir name =
     dir_lookup_from s dir name (nblocks_of (rd32 (mem s) (dir + OFF_f_size))) 0"

function find_free :: "(nat \<Rightarrow> byte) \<Rightarrow> nat \<Rightarrow> nat \<Rightarrow> nat option" where
  "find_free m blk j =
     (if j < FILE2BLK then
        (if m (blk + j * BY2FILE + OFF_f_name) = 0 then Some (blk + j * BY2FILE)
         else find_free m blk (j + 1))
      else None)"
  by pat_completeness auto
termination
  by (relation "measure (\<lambda>(m, blk, j). FILE2BLK - j)") auto

declare find_free.simps [simp del]

function dir_alloc_file_from :: "fs \<Rightarrow> nat \<Rightarrow> nat \<Rightarrow> nat \<Rightarrow> abort + fs \<times> (err + nat)" where
  "dir_alloc_file_from s dir nblock i =
     (if i < nblock then
        (case file_get_block s dir i of
           Inl a \<Rightarrow> Inl a
         | Inr (s1, Inl e) \<Rightarrow> Inr (s1, Inl e)
         | Inr (s1, Inr blk) \<Rightarrow>
             (case find_free (mem s1) blk 0 of
                Some fj \<Rightarrow> Inr (s1, Inr fj)
              | None \<Rightarrow> dir_alloc_file_from s1 dir nblock (i + 1)))
      else (case file_get_block
                   (s\<lparr>mem := wr32 (mem s) (dir + OFF_f_size)
                                (rd32 (mem s) (dir + OFF_f_size) + word_of_nat BY2BLK)\<rparr>) dir i of
              Inl a \<Rightarrow> Inl a
            | Inr (s1, Inl e) \<Rightarrow> Inr (s1, Inl e)
            | Inr (s1, Inr blk) \<Rightarrow> Inr (s1, Inr blk)))"
  by pat_completeness auto
termination
  by (relation "measure (\<lambda>(s, dir, nblock, i). nblock - i)") auto

declare dir_alloc_file_from.simps [simp del]

definition dir_alloc_file :: "fs \<Rightarrow> nat \<Rightarrow> abort + fs \<times> (err + nat)" where
  "dir_alloc_file s dir =
     dir_alloc_file_from s dir (nblocks_of (rd32 (mem s) (dir + OFF_f_size))) 0"

abbreviation (input) slash :: byte where "slash \<equiv> 47"

definition c_str :: "byte list \<Rightarrow> byte list" where
  "c_str path = takeWhile (\<lambda>c. c \<noteq> 0) path"

fun skip_slash :: "byte list \<Rightarrow> byte list" where
  "skip_slash [] = []"
| "skip_slash (c # cs) = (if c = slash then skip_slash cs else c # cs)"

lemma length_skip_slash: "length (skip_slash p) \<le> length p"
  by (induction p) auto

lemma walk_step_shorter:
  "path \<noteq> [] \<Longrightarrow> length (skip_slash (dropWhile (\<lambda>c. c \<noteq> slash) path)) < length path"
proof (cases path)
  case Nil
  assume "path \<noteq> []"
  with Nil show ?thesis by simp
next
  case (Cons c cs)
  show ?thesis
  proof (cases "c = slash")
    case True
    then show ?thesis using Cons length_skip_slash[of cs] by simp
  next
    case False
    have "length (skip_slash (dropWhile (\<lambda>c. c \<noteq> slash) cs)) \<le> length cs"
      using length_skip_slash[of "dropWhile (\<lambda>c. c \<noteq> slash) cs"]
        length_dropWhile_le[of "\<lambda>c. c \<noteq> slash" cs]
      by (meson le_trans)
    then show ?thesis using Cons False by simp
  qed
qed

text \<open>
  The loop of \<^verbatim>\<open>walk_path\<close>. The result is the return code (\<open>None\<close> for 0) with the
  values left in \<^verbatim>\<open>*pdir\<close>, \<^verbatim>\<open>*pfile\<close> and \<^verbatim>\<open>lastelem\<close>; \<open>None\<close> for \<^verbatim>\<open>lastelem\<close> is a
  buffer the walk did not write.
\<close>

function walk_path_loop ::
  "fs \<Rightarrow> byte list \<Rightarrow> nat \<Rightarrow> nat \<Rightarrow> abort + fs \<times> err option \<times> nat \<times> nat \<times> byte list option" where
  "walk_path_loop s path dir file =
     (if path \<noteq> [] then
        (if length (takeWhile (\<lambda>c. c \<noteq> slash) path) \<ge> MAXNAMELEN
         then Inr (s, Some E_BAD_PATH, 0, 0, None)
         else if rd32 (mem s) (file + OFF_f_type) \<noteq> FTYPE_DIR
         then Inr (s, Some E_NOT_FOUND, 0, 0, None)
         else (case dir_lookup s file (takeWhile (\<lambda>c. c \<noteq> slash) path) of
                 Inl a \<Rightarrow> Inl a
               | Inr (s1, Inl e) \<Rightarrow>
                   if e = E_NOT_FOUND \<and> skip_slash (dropWhile (\<lambda>c. c \<noteq> slash) path) = []
                   then Inr (s1, Some e, file, 0, Some (takeWhile (\<lambda>c. c \<noteq> slash) path))
                   else Inr (s1, Some e, 0, 0, None)
               | Inr (s1, Inr found) \<Rightarrow>
                   walk_path_loop s1 (skip_slash (dropWhile (\<lambda>c. c \<noteq> slash) path)) file found))
      else Inr (s, None, dir, file, None))"
  by pat_completeness auto
termination
  by (relation "measure (\<lambda>(s, path, dir, file). length path)") (auto simp: walk_step_shorter)

declare walk_path_loop.simps [simp del]

definition walk_path :: "fs \<Rightarrow> byte list \<Rightarrow> abort + fs \<times> err option \<times> nat \<times> nat \<times> byte list option" where
  "walk_path s path = walk_path_loop s (skip_slash (c_str path)) 0 (super s + OFF_s_root)"

definition file_create :: "fs \<Rightarrow> byte list \<Rightarrow> abort + fs \<times> (err + nat)" where
  "file_create s path =
     (case walk_path s path of
        Inl a \<Rightarrow> Inl a
      | Inr (s1, rc, dir, f, lastelem) \<Rightarrow>
          (case rc of
             None \<Rightarrow> Inr (s1, Inl E_FILE_EXISTS)
           | Some r \<Rightarrow>
               if r \<noteq> E_NOT_FOUND \<or> dir = 0 then Inr (s1, Inl r)
               else (case dir_alloc_file s1 dir of
                       Inl a \<Rightarrow> Inl a
                     | Inr (s2, Inl e) \<Rightarrow> Inr (s2, Inl r)
                     | Inr (s2, Inr f') \<Rightarrow>
                         (case lastelem of
                            None \<Rightarrow> Inl Fault
                          | Some name \<Rightarrow>
                              Inr (s2\<lparr>mem := strcpy (mem s2) (f' + OFF_f_name) name\<rparr>, Inr f')))))"

section \<open>Truncation and write-back\<close>

function file_truncate_loop :: "fs \<Rightarrow> nat \<Rightarrow> nat \<Rightarrow> nat \<Rightarrow> abort + fs" where
  "file_truncate_loop s f bno old_nblocks =
     (if bno < old_nblocks then
        (case file_clear_block s f bno of
           Inl a \<Rightarrow> Inl a
         | Inr (s1, r) \<Rightarrow> file_truncate_loop s1 f (bno + 1) old_nblocks)
      else Inr s)"
  by pat_completeness auto
termination
  by (relation "measure (\<lambda>(s, f, bno, old_nblocks). old_nblocks - bno)") auto

declare file_truncate_loop.simps [simp del]

definition file_truncate :: "fs \<Rightarrow> nat \<Rightarrow> u_int \<Rightarrow> abort + fs" where
  "file_truncate s f newsize =
     (case file_truncate_loop s f (if newsize = 0 then 0 else nblocks_of newsize)
             (nblocks_of (rd32 (mem s) (f + OFF_f_size))) of
        Inl a \<Rightarrow> Inl a
      | Inr s1 \<Rightarrow>
          (case (if rd32 (mem s1) (f + OFF_f_indirect) \<noteq> 0 then
                   (case free_block s1 (unat (rd32 (mem s1) (f + OFF_f_indirect))) of
                      Inl a \<Rightarrow> Inl a
                    | Inr s2 \<Rightarrow> Inr (s2\<lparr>mem := wr32 (mem s2) (f + OFF_f_indirect) 0\<rparr>))
                 else Inr s1) of
             Inl a \<Rightarrow> Inl a
           | Inr s3 \<Rightarrow> Inr (s3\<lparr>mem := wr32 (mem s3) (f + OFF_f_size) newsize\<rparr>)))"

function file_flush_loop :: "fs \<Rightarrow> nat \<Rightarrow> nat \<Rightarrow> nat \<Rightarrow> abort + fs" where
  "file_flush_loop s f bno nblocks =
     (if bno < nblocks then
        (case file_map_block s f bno False of
           Inl a \<Rightarrow> Inl a
         | Inr (s1, Inl e) \<Rightarrow> Inr s1
         | Inr (s1, Inr diskno) \<Rightarrow>
             (case block_is_dirty s1 diskno of
                Inl a \<Rightarrow> Inl a
              | Inr d \<Rightarrow>
                  (case (if d then write_block s1 diskno else Inr s1) of
                     Inl a \<Rightarrow> Inl a
                   | Inr s2 \<Rightarrow> file_flush_loop s2 f (bno + 1) nblocks)))
      else Inr s)"
  by pat_completeness auto
termination
  by (relation "measure (\<lambda>(s, f, bno, nblocks). nblocks - bno)") auto

declare file_flush_loop.simps [simp del]

definition file_flush :: "fs \<Rightarrow> nat \<Rightarrow> abort + fs" where
  "file_flush s f = file_flush_loop s f 0 (nblocks_of (rd32 (mem s) (f + OFF_f_size)))"

text \<open>
  Writing a block back changes the disk, the log and the page's permissions, and nothing
  else; in particular not the block count that the loop of \<^verbatim>\<open>fs_sync\<close> reads before
  every round.
\<close>

lemma same_page_offset: "(a::nat) div 4096 = va div 4096 \<Longrightarrow> va div 4096 * 4096 + a mod 4096 = a"
  by (metis div_mult_mod_eq)

lemma syscall_mem_map_self_frame:
  "syscall_mem_map s va va perm = Inr (s', r) \<Longrightarrow>
     mem s' = mem s \<and> super s' = super s \<and> bitmap s' = bitmap s \<and> disk s' = disk s
     \<and> ide_log s' = ide_log s \<and> free_pages s' = free_pages s \<and> fresh s' = fresh s
     \<and> vpd s' = vpd s"
  by (auto simp: syscall_mem_map_def same_page_offset split: if_splits intro!: ext)

lemma write_block_frame:
  "write_block s b = Inr s' \<Longrightarrow>
     mem s' = mem s \<and> super s' = super s \<and> bitmap s' = bitmap s \<and> free_pages s' = free_pages s
     \<and> fresh s' = fresh s \<and> vpd s' = vpd s"
  by (auto simp: write_block_def ide_write_def split: sum.splits if_splits
      dest!: syscall_mem_map_self_frame)

lemma write_block_s_nblocks: "write_block s b = Inr s' \<Longrightarrow> s_nblocks s' = s_nblocks s"
  by (drule write_block_frame) (simp add: s_nblocks_def)

function fs_sync_loop :: "fs \<Rightarrow> nat \<Rightarrow> abort + fs" where
  "fs_sync_loop s i =
     (if super s = 0 then Inl Fault
      else if i < s_nblocks s then
        (case block_is_dirty s i of
           Inl a \<Rightarrow> Inl a
         | Inr d \<Rightarrow>
             (case (if d then write_block s i else Inr s) of
                Inl a \<Rightarrow> Inl a
              | Inr s1 \<Rightarrow> fs_sync_loop s1 (i + 1)))
      else Inr s)"
  by pat_completeness auto
termination
  by (relation "measure (\<lambda>(s, i). s_nblocks s - i)")
     (auto split: if_splits dest: write_block_s_nblocks)

declare fs_sync_loop.simps [simp del]

definition fs_sync :: "fs \<Rightarrow> abort + fs" where
  "fs_sync s = fs_sync_loop s 0"

section \<open>Path components\<close>

text \<open>
  The components of a path as the specification speaks of them: the non-empty pieces
  between slashes. This definition follows the wording of section 4.5, not the code; the
  theorems on \<open>walk_path\<close> relate the two.
\<close>

fun split_slash :: "byte list \<Rightarrow> byte list list" where
  "split_slash [] = [[]]"
| "split_slash (c # cs) =
     (if c = slash then [] # split_slash cs
      else (c # hd (split_slash cs)) # tl (split_slash cs))"

definition components :: "byte list \<Rightarrow> byte list list" where
  "components p = filter (\<lambda>x. x \<noteq> []) (split_slash p)"

text \<open>
  Looking up a list of names one after the other, starting at a directory record: the
  lookups \<^verbatim>\<open>walk_path\<close> makes for components it accepts (the node must be a directory, and
  the name must be found in it by \<^verbatim>\<open>dir_lookup\<close>). The walk \<^emph>\<open>reaches\<close> a component when
  all the components before it are looked up so; \<open>reaches_long\<close> says that it reaches a
  component of \<^verbatim>\<open>MAXNAMELEN\<close> bytes or more after shorter ones, in the state \<open>s'\<close>.
\<close>

fun walk_names :: "fs \<Rightarrow> nat \<Rightarrow> byte list list \<Rightarrow> abort + fs \<times> (err + nat)" where
  "walk_names s fl [] = Inr (s, Inr fl)"
| "walk_names s fl (n # ns) =
     (if rd32 (mem s) (fl + OFF_f_type) \<noteq> FTYPE_DIR then Inr (s, Inl E_NOT_FOUND)
      else (case dir_lookup s fl n of
              Inl a \<Rightarrow> Inl a
            | Inr (s1, Inl e) \<Rightarrow> Inr (s1, Inl e)
            | Inr (s1, Inr found) \<Rightarrow> walk_names s1 found ns))"

definition reaches_long :: "fs \<Rightarrow> nat \<Rightarrow> byte list list \<Rightarrow> fs \<Rightarrow> bool" where
  "reaches_long s fl cs s' \<longleftrightarrow>
     (\<exists>pre c post fl'. cs = pre @ c # post \<and> (\<forall>x\<in>set pre. length x < MAXNAMELEN)
        \<and> MAXNAMELEN \<le> length c \<and> walk_names s fl pre = Inr (s', Inr fl'))"

section \<open>User-level fork\<close>














section \<open>A loaded file system\<close>

text \<open>
  What \<^verbatim>\<open>fs_init\<close> establishes and the server never changes afterwards: \<^verbatim>\<open>read_super\<close>
  sets \<^verbatim>\<open>super\<close> to the address of block 1 and panics when the block count exceeds
  \<^verbatim>\<open>DISKMAX/BY2BLK\<close>, \<^verbatim>\<open>read_bitmap\<close> sets \<^verbatim>\<open>bitmap\<close> to the address of block 2.
\<close>

definition fs_loaded :: "fs \<Rightarrow> bool" where
  "fs_loaded s \<longleftrightarrow> super s = DISKMAP + BY2BLK \<and> bitmap s = DISKMAP + 2 * BY2BLK
                    \<and> s_nblocks s \<le> DISKMAX div BY2BLK"

section \<open>A small file system\<close>

text \<open>
  A loaded image of eight blocks, used for the concrete runs below. Block 1 is the
  superblock, block 2 the bitmap (blocks 4 to 7 are free), block 3 the only block of the
  root directory; blocks 0 to 3 are resident and the kernel has no page left. The first
  record of the root directory is the file \<^verbatim>\<open>a\<close> of 45056 bytes (eleven blocks) that has no
  block yet: the state after \<^verbatim>\<open>file_set_size\<close> has grown an empty file, which only sets
  the size. The second record is free (its name is empty) and still has the type of the
  directory it once was. On disk, the bitmap block shows what it showed when it was
  loaded.
\<close>

definition small_fs :: fs where
  "small_fs =
     \<lparr>mem = (\<lambda>a. 0)(0x10001004 := 8, 0x10001089 := 0x10, 0x1000108C := 1, 0x10001090 := 3,
                    0x10002000 := 0xF0, 0x10003000 := 97, 0x10003081 := 0xB0,
                    0x10003184 := 1),
      vpd = (\<lambda>i. 0)(64 := PTE_V),
      vpt = (\<lambda>i. 0)(0x10000 := PTE_V OR PTE_R, 0x10001 := PTE_V OR PTE_R,
                    0x10002 := PTE_V OR PTE_R, 0x10003 := PTE_V OR PTE_R),
      disk = (\<lambda>d. 0)(0x2000 := 0xF0),
      ide_log = [], super = 0x10001000, bitmap = 0x10002000, free_pages = 0,
      fresh = (\<lambda>a. 0)\<rparr>"

lemmas eval_defs = small_fs_def s_nblocks_def rd32_def wr32_def va_is_mapped_def PDX_def VPN_def
  diskaddr_def block_is_mapped_def va_is_dirty_def block_is_dirty_def map_block_def
  block_is_free_def read_block_def write_block_def free_block_def
  syscall_mem_alloc_def syscall_mem_map_def ide_read_def ide_write_def
  alloc_block_num_def alloc_block_def file_block_walk_def file_map_block_def load32_def
  clear_slot_def file_clear_block_def file_get_block_def nblocks_of_def

text \<open>
  The small file system with block 4 resident: the block is free, and its page still
  holds what a file that has been truncated since left in it (the byte 7 at offset 40).
\<close>

definition stale_fs :: fs where
  "stale_fs = small_fs\<lparr>mem := (mem small_fs)(0x10004028 := 7),
                       vpt := (vpt small_fs)(0x10004 := PTE_V OR PTE_R)\<rparr>"

section \<open>Memory lemmas\<close>

lemma rd32_wr32_same: "rd32 (wr32 m a v) a = v"
proof (rule bit_word_eqI)
  fix n assume n: "n < LENGTH(32)"
  consider "n < 8" | "8 \<le> n" "n < 16" | "16 \<le> n" "n < 24" | "24 \<le> n" by linarith
  then show "bit (rd32 (wr32 m a v) a) n = bit v n"
    using n by cases (auto simp: rd32_def wr32_def bit_simps)
qed

lemma rd32_wr32_other: "a + 4 \<le> b \<or> b + 4 \<le> a \<Longrightarrow> rd32 (wr32 m a v) b = rd32 m b"
  by (auto simp: rd32_def wr32_def)

lemma wr32_wr32_same: "wr32 (wr32 m a v) a w = wr32 m a w"
  by (rule ext) (simp add: wr32_def)

lemma rd32_byte0: "ucast (rd32 m a) = m a"
  unfolding rd32_def by (rule bit_word_eqI) (auto simp: bit_simps dest: bit_imp_le_length)

lemma rd32_byte1: "ucast (drop_bit 8 (rd32 m a)) = m (a + 1)"
  unfolding rd32_def by (rule bit_word_eqI) (auto simp: bit_simps dest: bit_imp_le_length)

lemma rd32_byte2: "ucast (drop_bit 16 (rd32 m a)) = m (a + 2)"
  unfolding rd32_def by (rule bit_word_eqI) (auto simp: bit_simps dest: bit_imp_le_length)

lemma rd32_byte3: "ucast (drop_bit 24 (rd32 m a)) = m (a + 3)"
  unfolding rd32_def by (rule bit_word_eqI) (auto simp: bit_simps dest: bit_imp_le_length)

lemma wr32_rd32_same: "wr32 m a (rd32 m a) = m"
  by (rule ext) (simp add: wr32_def rd32_byte0 rd32_byte1 rd32_byte2 rd32_byte3)

lemma wr32_outside: "b < a \<or> a + 4 \<le> b \<Longrightarrow> wr32 m a v b = m b"
  by (auto simp: wr32_def)

lemma mask_test_bit: "k < 32 \<Longrightarrow> ((w::u_int) AND push_bit k 1 \<noteq> 0) = bit w k"
  by (auto simp: bit_eq_iff[where ?'a="32 word"] bit_simps)

lemma clear_then_set: "k < 32 \<Longrightarrow> bit (w::u_int) k \<Longrightarrow> (w AND NOT (push_bit k 1)) OR push_bit k 1 = w"
  by (rule bit_eqI) (auto simp: bit_simps)

lemma mask_test_bit_pow: "k < 32 \<Longrightarrow> ((w::u_int) AND 2 ^ k \<noteq> 0) = bit w k"
  using mask_test_bit[of k w] by simp

lemma clear_then_set_pow: "k < 32 \<Longrightarrow> bit (w::u_int) k \<Longrightarrow> (w AND NOT (2 ^ k)) OR 2 ^ k = w"
  using clear_then_set[of k w] by simp

section \<open>The bitmap allocator\<close>

lemma alloc_block_num_from_err:
  "alloc_block_num_from s b = Inr (s1, Inl e) \<Longrightarrow> s1 = s \<and> e = E_NO_DISK"
proof (induction s b rule: alloc_block_num_from.induct)
  case (1 s blockno)
  show ?case using "1.prems" "1.IH"
    by (subst (asm) alloc_block_num_from.simps) (auto split: if_splits sum.splits)
qed

lemma alloc_block_num_from_ok:
  "alloc_block_num_from s b = Inr (s1, Inr bno) \<Longrightarrow>
     b \<le> bno \<and> bno < s_nblocks s \<and> super s \<noteq> 0 \<and> bitmap s \<noteq> 0
     \<and> rd32 (mem s) (bitmap s + 4 * (bno div 32)) AND push_bit (bno mod 32) 1 \<noteq> 0
     \<and> mem s1 = wr32 (mem s) (bitmap s + 4 * (bno div 32))
                   (rd32 (mem s) (bitmap s + 4 * (bno div 32)) AND NOT (push_bit (bno mod 32) 1))
     \<and> super s1 = super s \<and> bitmap s1 = bitmap s"
proof (induction s b rule: alloc_block_num_from.induct)
  case (1 s blockno)
  show ?case using "1.prems" "1.IH"
    by (subst (asm) alloc_block_num_from.simps)
       (auto split: if_splits sum.splits dest!: write_block_frame)
qed

lemma map_block_err: "map_block s b = Inr (s2, Inl e) \<Longrightarrow> s2 = s"
  by (auto simp: map_block_def syscall_mem_alloc_def split: sum.splits if_splits)

text \<open>
  What \<^verbatim>\<open>alloc_block_num\<close> does in general: the block it returns is the first from its
  starting point whose bit is set, it returns \<^verbatim>\<open>-E_NO_DISK\<close> only when no bit from the
  starting point up to the block count is set, and on success the sector it writes is the
  first sector of block \<open>bno div BIT2BLK\<close>.
\<close>

lemma write_block_log:
  "write_block s b = Inr s' \<Longrightarrow> ide_log s' = ide_log s @ [b * SECT2BLK mod 2 ^ 32]"
  by (auto simp: write_block_def ide_write_def split: sum.splits if_splits
      dest!: syscall_mem_map_self_frame)

lemma alloc_block_num_from_first_fit:
  "alloc_block_num_from s b = Inr (s1, Inr bno) \<Longrightarrow>
     (\<forall>k. b \<le> k \<and> k < bno \<longrightarrow>
        rd32 (mem s) (bitmap s + 4 * (k div 32)) AND push_bit (k mod 32) 1 = 0)
     \<and> ide_log s1 = ide_log s @ [bno div BIT2BLK * SECT2BLK mod 2 ^ 32]"
proof (induction s b rule: alloc_block_num_from.induct)
  case (1 s blockno)
  show ?case
  proof (cases "rd32 (mem s) (bitmap s + 4 * (blockno div 32)) AND push_bit (blockno mod 32) 1 \<noteq> 0")
    case True
    then show ?thesis using "1.prems"
      by (subst (asm) alloc_block_num_from.simps)
         (auto split: if_splits sum.splits dest!: write_block_log)
  next
    case False
    have r: "alloc_block_num_from s (blockno + 1) = Inr (s1, Inr bno)"
      and c: "super s \<noteq> 0" "blockno < s_nblocks s" "bitmap s \<noteq> 0"
      using "1.prems" False
      by (subst (asm) alloc_block_num_from.simps, auto split: if_splits sum.splits)+
    from "1.IH"[OF c(1) c(2) c(3) False r]
    have ih: "\<forall>k. blockno + 1 \<le> k \<and> k < bno \<longrightarrow>
        rd32 (mem s) (bitmap s + 4 * (k div 32)) AND push_bit (k mod 32) 1 = 0"
      and lg: "ide_log s1 = ide_log s @ [bno div BIT2BLK * SECT2BLK mod 2 ^ 32]" by auto
    have "rd32 (mem s) (bitmap s + 4 * (k div 32)) AND push_bit (k mod 32) 1 = 0"
      if "blockno \<le> k" "k < bno" for k
    proof (cases "k = blockno")
      case True
      then show ?thesis using False by simp
    next
      case F: False
      then show ?thesis using that ih by simp
    qed
    then show ?thesis using lg by simp
  qed
qed

lemma alloc_block_num_from_none_free:
  "alloc_block_num_from s b = Inr (s1, Inl e) \<Longrightarrow>
     (\<forall>k. b \<le> k \<and> k < s_nblocks s \<longrightarrow>
        rd32 (mem s) (bitmap s + 4 * (k div 32)) AND push_bit (k mod 32) 1 = 0)"
proof (induction s b rule: alloc_block_num_from.induct)
  case (1 s blockno)
  show ?case
  proof (cases "blockno < s_nblocks s")
    case False
    then show ?thesis by auto
  next
    case True
    have r: "alloc_block_num_from s (blockno + 1) = Inr (s1, Inl e)"
      and c: "super s \<noteq> 0" "bitmap s \<noteq> 0"
        "\<not> rd32 (mem s) (bitmap s + 4 * (blockno div 32)) AND push_bit (blockno mod 32) 1 \<noteq> 0"
      using "1.prems" True
      by (subst (asm) alloc_block_num_from.simps, auto split: if_splits sum.splits)+
    from "1.IH"[OF c(1) True c(2) c(3) r]
    have ih: "\<forall>k. blockno + 1 \<le> k \<and> k < s_nblocks s \<longrightarrow>
        rd32 (mem s) (bitmap s + 4 * (k div 32)) AND push_bit (k mod 32) 1 = 0" by auto
    have "rd32 (mem s) (bitmap s + 4 * (k div 32)) AND push_bit (k mod 32) 1 = 0"
      if "blockno \<le> k" "k < s_nblocks s" for k
    proof (cases "k = blockno")
      case True
      then show ?thesis using c(3) by simp
    next
      case False
      then show ?thesis using that ih by simp
    qed
    then show ?thesis by simp
  qed
qed

text \<open>
  C10, as amended. \<^verbatim>\<open>block_is_free\<close> is guarded against an unloaded superblock and against
  block numbers out of range: it answers 0 for every block number when the superblock is
  not loaded and for every block number at or past the block count, whatever the bitmap
  pointer is (it may be null: the bitmap is not read). Otherwise, provided the bitmap is
  loaded, it answers 1 exactly when bit \<open>blockno mod 32\<close> of word \<open>blockno div 32\<close> of the
  bitmap is set, and 0 when it is clear. The function itself does not test the bitmap
  pointer; \<^verbatim>\<open>read_block\<close> tests it before the call.
\<close>

theorem block_is_free_guarded:
  "(super s = 0 \<or> s_nblocks s \<le> blockno \<longrightarrow> block_is_free s blockno = Inr 0) \<and>
   (super s \<noteq> 0 \<and> blockno < s_nblocks s \<and> bitmap s \<noteq> 0 \<longrightarrow>
      block_is_free s blockno
        = Inr (if bit (rd32 (mem s) (bitmap s + 4 * (blockno div 32))) (blockno mod 32)
               then 1 else 0))"
  by (simp add: block_is_free_def mask_test_bit_pow)

theorem block_is_free_guarded_witness:
  "s_nblocks small_fs \<le> 9 \<and> block_is_free small_fs 9 = Inr 0 \<and>
   block_is_free (small_fs\<lparr>super := 0, bitmap := 0\<rparr>) 5 = Inr 0 \<and>
   super small_fs \<noteq> 0 \<and> 5 < s_nblocks small_fs \<and> bitmap small_fs \<noteq> 0 \<and>
   bit (rd32 (mem small_fs) (bitmap small_fs + 4 * (5 div 32))) (5 mod 32) \<and>
   block_is_free small_fs 5 = Inr 1 \<and>
   \<not> bit (rd32 (mem small_fs) (bitmap small_fs + 4 * (3 div 32))) (3 mod 32) \<and>
   block_is_free small_fs 3 = Inr 0"
proof -
  have n: "s_nblocks small_fs = 8" by (simp add: eval_defs)
  have w: "rd32 (mem small_fs) (bitmap small_fs) = 0xF0"
    by (simp add: eval_defs)
  have p: "super small_fs \<noteq> 0" "bitmap small_fs \<noteq> 0" by (simp_all add: small_fs_def)
  show ?thesis
    using block_is_free_guarded[of small_fs 9] block_is_free_guarded[of small_fs 5]
      block_is_free_guarded[of small_fs 3]
      block_is_free_guarded[of "small_fs\<lparr>super := 0, bitmap := 0\<rparr>" 5]
    by (simp add: n w p)
qed

text \<open>
  C10 as stated fails: the function is not total. With the superblock of the small file
  system loaded, block 5 in range and the bitmap pointer null, it loads through the null
  pointer.
\<close>

theorem block_is_free_null_bitmap_counterexample:
  "super (small_fs\<lparr>bitmap := 0\<rparr>) \<noteq> 0 \<and> 5 < s_nblocks (small_fs\<lparr>bitmap := 0\<rparr>)
   \<and> bitmap (small_fs\<lparr>bitmap := 0\<rparr>) = 0
   \<and> block_is_free (small_fs\<lparr>bitmap := 0\<rparr>) 5 = Inl Fault"
  by (simp add: eval_defs)

text \<open>
  C9. \<^verbatim>\<open>alloc_block\<close> is atomic on failure: whenever it returns an error code, memory as a
  whole, and with it every word of the bitmap, is what it was at the call, the two global
  pointers are unchanged, and \<^verbatim>\<open>block_is_free\<close> gives the same answer for every block
  number as it gave at the call. When the error comes from \<^verbatim>\<open>map_block\<close>, the bit that
  \<^verbatim>\<open>alloc_block_num\<close> cleared has been set again by \<^verbatim>\<open>free_block\<close>.
\<close>

theorem alloc_block_failure_atomic:
  assumes "alloc_block s = Inr (s', Inl e)"
  shows "mem s' = mem s \<and> super s' = super s \<and> bitmap s' = bitmap s
         \<and> (\<forall>n. block_is_free s' n = block_is_free s n)"
proof -
  have core: "mem s' = mem s \<and> super s' = super s \<and> bitmap s' = bitmap s"
  proof (cases "alloc_block_num s")
    case (Inl a)
    then show ?thesis using assms by (simp add: alloc_block_def)
  next
    case (Inr p)
    obtain s1 r where p: "p = (s1, r)" by (cases p)
    show ?thesis
    proof (cases r)
      case (Inl e1)
      then have "s1 = s" using Inr p alloc_block_num_from_err[of s 3 s1 e1]
        by (simp add: alloc_block_num_def)
      then show ?thesis using assms Inr p Inl by (simp add: alloc_block_def)
    next
      case (Inr bno)
      have num: "alloc_block_num_from s 3 = Inr (s1, Inr bno)"
        using \<open>alloc_block_num s = Inr p\<close> p Inr by (simp add: alloc_block_num_def)
      let ?a = "bitmap s + 4 * (bno div 32)"
      let ?w = "rd32 (mem s) ?a"
      from alloc_block_num_from_ok[OF num]
      have isset: "?w AND push_bit (bno mod 32) 1 \<noteq> 0"
        and m1: "mem s1 = wr32 (mem s) ?a (?w AND NOT (push_bit (bno mod 32) 1))"
        and su1: "super s1 = super s" and bi1: "bitmap s1 = bitmap s" by auto
      obtain s2 where mb: "map_block s1 bno = Inr (s2, Inl e)" and fb: "free_block s2 bno = Inr s'"
        using assms num by (auto simp: alloc_block_def alloc_block_num_def split: sum.splits)
      have s2: "s2 = s1" using map_block_err[OF mb] .
      have bitk: "bit ?w (bno mod 32)" using isset by (simp add: mask_test_bit_pow)
      have "mem s' = wr32 (mem s1) ?a (rd32 (mem s1) ?a OR push_bit (bno mod 32) 1)"
        using fb s2 bi1 by (auto simp: free_block_def split: if_splits)
      also have "\<dots> = wr32 (mem s) ?a ?w"
        by (simp add: m1 rd32_wr32_same wr32_wr32_same clear_then_set_pow[OF _ bitk])
      also have "\<dots> = mem s" by (rule wr32_rd32_same)
      finally have "mem s' = mem s" .
      moreover have "super s' = super s" "bitmap s' = bitmap s"
        using fb s2 su1 bi1 by (auto simp: free_block_def split: if_splits)
      ultimately show ?thesis by simp
    qed
  qed
  then show ?thesis by (simp add: block_is_free_def s_nblocks_def)
qed

theorem alloc_block_failure_atomic_witness:
  "\<exists>s'. alloc_block small_fs = Inr (s', Inl E_NO_MEM) \<and> mem s' = mem small_fs
        \<and> super s' = super small_fs \<and> bitmap s' = bitmap small_fs
        \<and> (\<forall>n. block_is_free s' n = block_is_free small_fs n)"
proof -
  have "\<exists>s'. alloc_block small_fs = Inr (s', Inl E_NO_MEM)"
    by (simp add: alloc_block_num_from.simps eval_defs)
  then obtain s' where h: "alloc_block small_fs = Inr (s', Inl E_NO_MEM)" by blast
  from alloc_block_failure_atomic[OF h] h show ?thesis by blast
qed

text \<open>
  C2. On the small file system \<^verbatim>\<open>alloc_block_num\<close> finds block 4, the first free block
  from 3 upward, clears its bit in memory (the bitmap byte \<open>0xF0\<close> becomes \<open>0xE0\<close>) and
  returns 4; but the one disk write it issues starts at sector 0, which is block
  \<open>4 div BIT2BLK = 0\<close>, the boot block. The bitmap block is block 2 (sector 16): on disk
  its first byte is still \<open>0xF0\<close>, block 4 still free.
\<close>

theorem alloc_block_num_flushes_block_0:
  "\<exists>s'. alloc_block_num small_fs = Inr (s', Inr 4) \<and> ide_log s' = [0]
        \<and> mem s' 0x10002000 = 0xE0 \<and> disk s' 0x2000 = 0xF0"
  by (simp add: alloc_block_num_from.simps eval_defs)

section \<open>Write-back\<close>

text \<open>
  \<^verbatim>\<open>block_is_dirty\<close> never holds, so \<^verbatim>\<open>fs_sync\<close>, when it returns, returns the state it
  was called in: it writes nothing, whatever is resident.
\<close>

lemma block_is_dirty_never: "block_is_dirty s b = Inr d \<Longrightarrow> \<not> d"
  by (auto simp: block_is_dirty_def va_is_dirty_def split: sum.splits)

lemma fs_sync_loop_identity: "fs_sync_loop s i = Inr s' \<Longrightarrow> s' = s"
proof (induction s i rule: fs_sync_loop.induct)
  case (1 s i)
  show ?case using "1.prems" "1.IH"
    by (subst (asm) fs_sync_loop.simps)
       (auto split: if_splits sum.splits dest!: block_is_dirty_never)
qed

lemma fs_sync_identity: "fs_sync s = Inr s' \<Longrightarrow> s' = s"
  by (auto simp: fs_sync_def dest: fs_sync_loop_identity)

text \<open>
  C1. On the small file system block 3, the block of the root directory, is resident and
  differs from the disk (its first byte is 97 in memory and 0 on disk). Neither
  \<^verbatim>\<open>fs_sync\<close> nor \<^verbatim>\<open>file_flush\<close> of the root directory writes it: both return the state
  they were given, with the same disk and an empty log, because \<^verbatim>\<open>va_is_dirty\<close> is
  constantly 0 and \<^verbatim>\<open>block_is_dirty\<close> therefore never holds.
\<close>

theorem fs_sync_writes_no_resident_block:
  "block_is_mapped small_fs 3 = Inr 0x10003000 \<and> mem small_fs 0x10003000 = 97
   \<and> disk small_fs 0x3000 = 0
   \<and> fs_sync small_fs = Inr small_fs
   \<and> file_flush small_fs (super small_fs + OFF_s_root) = Inr small_fs"
  by (simp add: fs_sync_def fs_sync_loop.simps file_flush_def file_flush_loop.simps eval_defs)

section \<open>Clearing and truncating\<close>

text \<open>
  \<^verbatim>\<open>file_clear_block\<close> by cases of \<open>filebno\<close>: a direct slot is freed and zeroed when it
  holds a block number and left alone when it holds 0; a block index past the indirect
  block is refused with \<^verbatim>\<open>-E_INVAL\<close>; an index into an indirect block that the file does
  not have ends in a load through the null pointer.
\<close>

lemma file_clear_block_direct:
  assumes "filebno < NDIRECT" "bitmap s \<noteq> 0"
  shows "file_clear_block s f filebno =
           (if rd32 (mem s) (f + OFF_f_direct + 4 * filebno) = 0 then Inr (s, Inr ())
            else (case free_block s (unat (rd32 (mem s) (f + OFF_f_direct + 4 * filebno))) of
                    Inl a \<Rightarrow> Inl a
                  | Inr s2 \<Rightarrow> Inr (s2\<lparr>mem := wr32 (mem s2) (f + OFF_f_direct + 4 * filebno) 0\<rparr>, Inr ())))"
  using assms by (simp add: file_clear_block_def file_block_walk_def clear_slot_def load32_def)

lemma file_clear_block_invalid:
  "NINDIRECT \<le> filebno \<Longrightarrow> file_clear_block s f filebno = Inr (s, Inl E_INVAL)"
  by (simp add: file_clear_block_def file_block_walk_def)

lemma file_clear_block_no_indirect:
  "NDIRECT \<le> filebno \<Longrightarrow> filebno < NINDIRECT \<Longrightarrow> rd32 (mem s) (f + OFF_f_indirect) = 0 \<Longrightarrow>
     file_clear_block s f filebno = Inl Fault"
  by (simp add: file_clear_block_def file_block_walk_def clear_slot_def load32_def)

text \<open>
  C3. The file \<^verbatim>\<open>a\<close> of the small file system (its record is at \<open>0x10003000\<close>) has no
  indirect block. For \<open>filebno = 10\<close> the walk returns \<^verbatim>\<open>-E_NOT_FOUND\<close> and leaves the slot
  pointer null, and \<^verbatim>\<open>file_clear_block\<close> then loads through it: the call does not return.
\<close>

theorem file_clear_block_null_slot:
  "rd32 (mem small_fs) (0x10003000 + OFF_f_indirect) = 0
   \<and> file_block_walk small_fs 0x10003000 10 False = Inr (small_fs, Inl E_NOT_FOUND)
   \<and> file_clear_block small_fs 0x10003000 10 = Inl Fault"
  by (simp add: eval_defs)

text \<open>
  C5. Truncating the same file from its eleven blocks to size 0 clears the logical blocks
  0 to 10; the tenth has no slot, and the null load of \<^verbatim>\<open>file_clear_block\<close> stops the
  server before the size is set.
\<close>

theorem file_truncate_null_slot:
  "nblocks_of (rd32 (mem small_fs) (0x10003000 + OFF_f_size)) = 11
   \<and> file_truncate small_fs 0x10003000 0 = Inl Fault"
  by (simp add: file_truncate_def file_truncate_loop.simps eval_defs)

section \<open>Fork\<close>























section \<open>Path walk\<close>

lemma split_slash_nonempty: "split_slash p \<noteq> []"
  by (induction p) auto

lemma hd_split_slash: "hd (split_slash p) = takeWhile (\<lambda>c. c \<noteq> slash) p"
  by (induction p) auto

lemma tl_split_slash:
  "filter (\<lambda>x. x \<noteq> []) (tl (split_slash p)) = components (dropWhile (\<lambda>c. c \<noteq> slash) p)"
  by (induction p) (auto simp: components_def)

lemma components_skip_slash: "components (skip_slash p) = components p"
  by (induction p) (auto simp: components_def)

lemma components_step:
  "set (components (skip_slash (dropWhile (\<lambda>c. c \<noteq> slash) p))) \<subseteq> set (components p)"
proof (cases p)
  case Nil
  then show ?thesis by simp
next
  case (Cons c cs)
  have "components p = filter (\<lambda>x. x \<noteq> []) [hd (split_slash p)] @ components (dropWhile (\<lambda>c. c \<noteq> slash) p)"
    using split_slash_nonempty[of p] tl_split_slash[of p]
    by (cases "split_slash p") (auto simp: components_def)
  then show ?thesis by (auto simp: components_skip_slash)
qed

lemma components_first:
  "takeWhile (\<lambda>c. c \<noteq> slash) p \<noteq> [] \<Longrightarrow> takeWhile (\<lambda>c. c \<noteq> slash) p \<in> set (components p)"
  using split_slash_nonempty[of p] hd_split_slash[of p]
  by (cases "split_slash p") (auto simp: components_def)

lemma syscall_mem_alloc_err:
  "syscall_mem_alloc s va perm = (s', Inl e) \<Longrightarrow> e \<noteq> E_BAD_PATH \<and> e \<noteq> E_NOT_FOUND"
  by (auto simp: syscall_mem_alloc_def split: if_splits)

lemma map_block_err_code: "map_block s b = Inr (s', Inl e) \<Longrightarrow> e \<noteq> E_BAD_PATH \<and> e \<noteq> E_NOT_FOUND"
  by (auto simp: map_block_def split: sum.splits if_splits dest!: syscall_mem_alloc_err)

lemma alloc_block_err_code: "alloc_block s = Inr (s', Inl e) \<Longrightarrow> e \<noteq> E_BAD_PATH \<and> e \<noteq> E_NOT_FOUND"
  by (auto simp: alloc_block_def alloc_block_num_def split: sum.splits
      dest!: alloc_block_num_from_err map_block_err_code)

lemma read_block_no_err: "read_block s b \<noteq> Inr (s', Inl e)"
  by (auto simp: read_block_def split: sum.splits if_splits)

lemma file_block_walk_err_code:
  "file_block_walk s f n alloc = Inr (s', Inl e) \<Longrightarrow> e \<noteq> E_BAD_PATH \<and> (alloc \<longrightarrow> e \<noteq> E_NOT_FOUND)"
  using read_block_no_err
  by (auto simp: file_block_walk_def split: sum.splits if_splits prod.splits dest!: alloc_block_err_code)

lemma file_map_block_err_code:
  "file_map_block s f n alloc = Inr (s', Inl e) \<Longrightarrow> e \<noteq> E_BAD_PATH \<and> (alloc \<longrightarrow> e \<noteq> E_NOT_FOUND)"
  by (auto simp: file_map_block_def split: sum.splits if_splits prod.splits
      dest!: alloc_block_err_code file_block_walk_err_code)

lemma file_get_block_err_code:
  "file_get_block s f n = Inr (s', Inl e) \<Longrightarrow> e \<noteq> E_BAD_PATH \<and> e \<noteq> E_NOT_FOUND"
  using read_block_no_err
  by (auto simp: file_get_block_def split: sum.splits if_splits prod.splits
      dest!: file_map_block_err_code)

lemma dir_lookup_from_err_code:
  "dir_lookup_from s dir name nblock i = Inr (s', Inl e) \<Longrightarrow> e \<noteq> E_BAD_PATH"
proof (induction s dir name nblock i rule: dir_lookup_from.induct)
  case (1 s dir name nblock i)
  show ?case using "1.prems" "1.IH"
    by (subst (asm) dir_lookup_from.simps)
       (auto split: if_splits sum.splits option.splits prod.splits dest: file_get_block_err_code)
qed

lemma dir_lookup_err_code: "dir_lookup s dir name = Inr (s', Inl e) \<Longrightarrow> e \<noteq> E_BAD_PATH"
  by (auto simp: dir_lookup_def dest: dir_lookup_from_err_code)


lemma split_slash_no_slash: "slash \<notin> set p \<Longrightarrow> split_slash p = [p]"
  by (induction p) auto

lemma skip_slash_id: "p = [] \<or> hd p \<noteq> slash \<Longrightarrow> skip_slash p = p"
  by (cases p) auto

lemma skip_slash_hd: "skip_slash p \<noteq> [] \<Longrightarrow> hd (skip_slash p) \<noteq> slash"
  by (induction p) auto

lemma components_hd:
  "components p \<noteq> [] \<Longrightarrow> hd (components p) = takeWhile (\<lambda>c. c \<noteq> slash) (skip_slash p)"
proof -
  assume ne: "components p \<noteq> []"
  let ?q = "skip_slash p"
  have cq: "components ?q = components p" by (rule components_skip_slash)
  have "?q \<noteq> []" using ne cq by (auto simp: components_def)
  then have "takeWhile (\<lambda>c. c \<noteq> slash) ?q \<noteq> []"
    using skip_slash_hd[of p] by (cases ?q) auto
  then have "hd (components ?q) = takeWhile (\<lambda>c. c \<noteq> slash) ?q"
    using split_slash_nonempty[of ?q] hd_split_slash[of ?q]
    by (cases "split_slash ?q") (auto simp: components_def)
  then show ?thesis using cq by simp
qed

lemma components_cons:
  assumes "p \<noteq> []" "hd p \<noteq> slash"
  shows "components p = takeWhile (\<lambda>c. c \<noteq> slash) p
                          # components (skip_slash (dropWhile (\<lambda>c. c \<noteq> slash) p))"
proof -
  have ne: "takeWhile (\<lambda>c. c \<noteq> slash) p \<noteq> []" using assms by (cases p) auto
  have "components p = filter (\<lambda>x. x \<noteq> []) [hd (split_slash p)]
                         @ components (dropWhile (\<lambda>c. c \<noteq> slash) p)"
    using split_slash_nonempty[of p] tl_split_slash[of p]
    by (cases "split_slash p") (auto simp: components_def)
  then show ?thesis using ne by (simp add: hd_split_slash components_skip_slash)
qed

lemma reaches_long_Nil: "\<not> reaches_long s fl [] s'"
  by (simp add: reaches_long_def)

lemma reaches_long_here:
  assumes "MAXNAMELEN \<le> length n"
  shows "reaches_long s fl (n # cs) s' \<longleftrightarrow> s' = s"
proof
  assume "reaches_long s fl (n # cs) s'"
  then obtain pre c post fl' where e: "n # cs = pre @ c # post"
    and sh: "\<forall>x\<in>set pre. length x < MAXNAMELEN"
    and w: "walk_names s fl pre = Inr (s', Inr fl')"
    by (auto simp: reaches_long_def)
  have "pre = []"
  proof (cases pre)
    case Nil then show ?thesis .
  next
    case (Cons a as)
    then have "a = n" using e by simp
    then show ?thesis using sh Cons assms by auto
  qed
  then show "s' = s" using w by simp
next
  assume "s' = s"
  then show "reaches_long s fl (n # cs) s'"
    unfolding reaches_long_def using assms
    by (intro exI[of _ "[]"] exI[of _ n] exI[of _ cs] exI[of _ fl]) simp
qed

lemma reaches_long_later:
  assumes "length n < MAXNAMELEN"
  shows "reaches_long s fl (n # cs) s' \<longleftrightarrow>
           rd32 (mem s) (fl + OFF_f_type) = FTYPE_DIR \<and>
           (\<exists>s1 found. dir_lookup s fl n = Inr (s1, Inr found) \<and> reaches_long s1 found cs s')"
proof
  assume "reaches_long s fl (n # cs) s'"
  then obtain pre c post fl' where e: "n # cs = pre @ c # post"
    and sh: "\<forall>x\<in>set pre. length x < MAXNAMELEN"
    and lc: "MAXNAMELEN \<le> length c"
    and w: "walk_names s fl pre = Inr (s', Inr fl')"
    by (auto simp: reaches_long_def)
  obtain pre' where p: "pre = n # pre'" and e': "cs = pre' @ c # post"
  proof (cases pre)
    case Nil
    then have "c = n" using e by simp
    then show ?thesis using lc assms by simp
  next
    case (Cons a as)
    then show ?thesis using e that by simp
  qed
  have sh': "\<forall>x\<in>set pre'. length x < MAXNAMELEN" using sh p by simp
  from w p have d: "rd32 (mem s) (fl + OFF_f_type) = FTYPE_DIR"
    by (auto split: if_splits)
  from w p d obtain s1 found where l: "dir_lookup s fl n = Inr (s1, Inr found)"
    and w': "walk_names s1 found pre' = Inr (s', Inr fl')"
    by (auto split: sum.splits prod.splits)
  have "reaches_long s1 found cs s'"
    unfolding reaches_long_def using e' sh' lc w' by blast
  then show "rd32 (mem s) (fl + OFF_f_type) = FTYPE_DIR \<and>
           (\<exists>s1 found. dir_lookup s fl n = Inr (s1, Inr found) \<and> reaches_long s1 found cs s')"
    using d l by blast
next
  assume a: "rd32 (mem s) (fl + OFF_f_type) = FTYPE_DIR \<and>
           (\<exists>s1 found. dir_lookup s fl n = Inr (s1, Inr found) \<and> reaches_long s1 found cs s')"
  then obtain s1 found pre c post fl' where l: "dir_lookup s fl n = Inr (s1, Inr found)"
    and e: "cs = pre @ c # post" and sh: "\<forall>x\<in>set pre. length x < MAXNAMELEN"
    and lc: "MAXNAMELEN \<le> length c" and w: "walk_names s1 found pre = Inr (s', Inr fl')"
    by (auto simp: reaches_long_def)
  show "reaches_long s fl (n # cs) s'"
    unfolding reaches_long_def
    using a l e sh lc w assms
    by (intro exI[of _ "n # pre"] exI[of _ c] exI[of _ post] exI[of _ fl']) simp
qed

lemma walk_path_loop_bad_path_iff:
  "p = [] \<or> hd p \<noteq> slash \<Longrightarrow>
   (walk_path_loop s p dir fl = Inr (s', Some E_BAD_PATH, d, f, l)) \<longleftrightarrow>
   (reaches_long s fl (components p) s' \<and> d = 0 \<and> f = 0 \<and> l = None)"
proof (induction s p dir fl rule: walk_path_loop.induct)
  case (1 s path dir fl)
  let ?name = "takeWhile (\<lambda>c. c \<noteq> slash) path"
  let ?rest = "skip_slash (dropWhile (\<lambda>c. c \<noteq> slash) path)"
  show ?case
  proof (cases "path = []")
    case True
    then show ?thesis
      by (subst walk_path_loop.simps) (simp add: components_def reaches_long_Nil)
  next
    case ne: False
    then have cs: "components path = ?name # components ?rest"
      using components_cons[of path] "1.prems" by simp
    have hd_rest: "?rest = [] \<or> hd ?rest \<noteq> slash"
      using skip_slash_hd[of "dropWhile (\<lambda>c. c \<noteq> slash) path"] by auto
    show ?thesis
    proof (cases "MAXNAMELEN \<le> length ?name")
      case True
      have "walk_path_loop s path dir fl = Inr (s, Some E_BAD_PATH, 0, 0, None)"
        using ne True by (subst walk_path_loop.simps) simp
      then show ?thesis using reaches_long_here[OF True, of s fl "components ?rest" s'] cs by auto
    next
      case short: False
      then have lt: "length ?name < MAXNAMELEN" by simp
      note rl = reaches_long_later[OF lt, of s fl "components ?rest" s']
      show ?thesis
      proof (cases "rd32 (mem s) (fl + OFF_f_type) \<noteq> FTYPE_DIR")
        case True
        have "walk_path_loop s path dir fl = Inr (s, Some E_NOT_FOUND, 0, 0, None)"
          using ne short True by (subst walk_path_loop.simps) simp
        then show ?thesis using rl cs True by auto
      next
        case isdir: False
        show ?thesis
        proof (cases "dir_lookup s fl ?name")
          case (Inl a)
          have "walk_path_loop s path dir fl = Inl a"
            using ne short isdir Inl by (subst walk_path_loop.simps) simp
          then show ?thesis using rl cs Inl by auto
        next
          case (Inr r)
          obtain s1 res where r: "r = (s1, res)" by (cases r)
          show ?thesis
          proof (cases res)
            case (Inl e)
            have nb: "e \<noteq> E_BAD_PATH" using dir_lookup_err_code[of s fl ?name s1 e] Inr r Inl by simp
            have "\<exists>d' f' l'. walk_path_loop s path dir fl = Inr (s1, Some e, d', f', l')"
              using ne short isdir Inr r Inl by (subst walk_path_loop.simps) simp
            then show ?thesis using rl cs Inr r Inl nb by auto
          next
            case found: (Inr found)
            have lk: "dir_lookup s fl ?name = Inr (s1, Inr found)" using Inr r found by simp
            have w: "walk_path_loop s path dir fl = walk_path_loop s1 ?rest fl found"
              using ne short isdir lk by (subst walk_path_loop.simps) simp
            from "1.IH"[OF ne short isdir lk _ _ hd_rest]
            have "(walk_path_loop s1 ?rest fl found = Inr (s', Some E_BAD_PATH, d, f, l)) \<longleftrightarrow>
                  (reaches_long s1 found (components ?rest) s' \<and> d = 0 \<and> f = 0 \<and> l = None)"
              by simp
            then show ?thesis using w rl cs lk isdir by auto
          qed
        qed
      qed
    qed
  qed
qed

lemma walk_path_accepts_short:
  assumes "\<forall>c\<in>set (components (c_str path)). length c < MAXNAMELEN"
  shows "walk_path s path \<noteq> Inr (s', Some E_BAD_PATH, d, f, l)"
proof
  assume a: "walk_path s path = Inr (s', Some E_BAD_PATH, d, f, l)"
  have hd: "skip_slash (c_str path) = [] \<or> hd (skip_slash (c_str path)) \<noteq> slash"
    using skip_slash_hd[of "c_str path"] by auto
  from a have "reaches_long s (super s + OFF_s_root) (components (c_str path)) s'"
    using walk_path_loop_bad_path_iff[OF hd, of s 0 "super s + OFF_s_root" s' d f l]
    by (simp add: walk_path_def components_skip_slash)
  then obtain pre c post where "components (c_str path) = pre @ c # post" "MAXNAMELEN \<le> length c"
    by (auto simp: reaches_long_def)
  then show False using assms by auto
qed

text \<open>
  C6, as amended. The name buffer of \<^verbatim>\<open>walk_path\<close> has \<^verbatim>\<open>MAXNAMELEN\<close> bytes including
  the terminating NUL, so the walk accepts a component of at most \<^verbatim>\<open>MAXNAMELEN - 1\<close>
  bytes and refuses one of \<^verbatim>\<open>MAXNAMELEN\<close> bytes or more when it reaches it.
  \<^verbatim>\<open>walk_path\<close> returns \<^verbatim>\<open>-E_BAD_PATH\<close> exactly when the path has a component of
  \<^verbatim>\<open>MAXNAMELEN\<close> bytes or more, every component before it is shorter, and the walk
  reaches it: each component before it is looked up in a directory and found. It then
  returns in the state the last of these lookups left, with \<^verbatim>\<open>*pdir\<close> and \<^verbatim>\<open>*pfile\<close>
  null and \<^verbatim>\<open>lastelem\<close> not written.
\<close>

theorem walk_path_bad_path:
  "(walk_path s path = Inr (s', Some E_BAD_PATH, d, f, l)) \<longleftrightarrow>
   ((\<exists>pre c post fl'. components (c_str path) = pre @ c # post
        \<and> (\<forall>x\<in>set pre. length x < MAXNAMELEN) \<and> MAXNAMELEN \<le> length c
        \<and> walk_names s (super s + OFF_s_root) pre = Inr (s', Inr fl'))
    \<and> d = 0 \<and> f = 0 \<and> l = None)"
proof -
  have hd: "skip_slash (c_str path) = [] \<or> hd (skip_slash (c_str path)) \<noteq> slash"
    using skip_slash_hd[of "c_str path"] by auto
  show ?thesis
    using walk_path_loop_bad_path_iff[OF hd, of s 0 "super s + OFF_s_root" s' d f l]
    by (simp add: walk_path_def components_skip_slash reaches_long_def)
qed

theorem walk_path_bad_path_witness:
  "components (c_str (97 # slash # replicate 128 97)) = [97] # [replicate 128 97] \<and>
   length [97::byte] < MAXNAMELEN \<and> MAXNAMELEN \<le> length (replicate 128 (97::byte)) \<and>
   (\<exists>s1. walk_names small_fs (super small_fs + OFF_s_root) [[97]] = Inr (s1, Inr 0x10003000)
        \<and> walk_path small_fs (97 # slash # replicate 128 97)
            = Inr (s1, Some E_BAD_PATH, 0, 0, None))"
proof -
  define long :: "byte list" where "long = replicate 128 97"
  have long: "long \<noteq> []" "slash \<notin> set long" "0 \<notin> set long" "length long = 128"
    by (simp_all add: long_def)
  have tw: "takeWhile (\<lambda>c. c \<noteq> 0) long = long"
    using long by (auto simp: takeWhile_eq_all_conv)
  have c: "components (c_str (97 # slash # long)) = [[97], long]"
    using long by (simp add: c_str_def components_def split_slash_no_slash tw)
  have su: "super small_fs + OFF_s_root = 0x10001008" by (simp add: small_fs_def)
  have g: "file_get_block small_fs 0x10001008 0 = Inr (small_fs, Inr 0x10003000)"
    by (simp add: eval_defs)
  have n: "find_name (mem small_fs) 0x10003000 [97] 0 = Some 0x10003000"
    by (simp add: find_name.simps small_fs_def)
  have nb: "nblocks_of (rd32 (mem small_fs) (0x10001008 + OFF_f_size)) = 1"
    by (simp add: eval_defs)
  have lk: "\<exists>s1. dir_lookup small_fs 0x10001008 [97] = Inr (s1, Inr 0x10003000)"
    unfolding dir_lookup_def nb
    by (subst dir_lookup_from.simps) (simp add: g n)
  have t: "rd32 (mem small_fs) (0x10001008 + OFF_f_type) = FTYPE_DIR"
    by (simp add: small_fs_def rd32_def)
  from lk obtain s1 where l1: "dir_lookup small_fs 0x10001008 [97] = Inr (s1, Inr 0x10003000)"
    by blast
  have w: "walk_names small_fs (super small_fs + OFF_s_root) [[97]] = Inr (s1, Inr 0x10003000)"
    using l1 t by (simp add: su)
  have r: "\<exists>pre c post fl'. components (c_str (97 # slash # long)) = pre @ c # post
        \<and> (\<forall>x\<in>set pre. length x < MAXNAMELEN) \<and> MAXNAMELEN \<le> length c
        \<and> walk_names small_fs (super small_fs + OFF_s_root) pre = Inr (s1, Inr fl')"
    using c w long
    by (intro exI[of _ "[[97]]"] exI[of _ long] exI[of _ "[]"] exI[of _ "0x10003000"]) simp
  have "walk_path small_fs (97 # slash # long) = Inr (s1, Some E_BAD_PATH, 0, 0, None)"
    using walk_path_bad_path[of small_fs "97 # slash # long" s1 0 0 None] r by blast
  then show ?thesis using c w long by (auto simp: long_def)
qed

lemma name_128: "c_str (replicate 128 97) = replicate 128 97"
  "components (replicate 128 97) = [replicate 128 97]"
  by (simp_all add: c_str_def components_def split_slash_no_slash)

text \<open>
  C6 as stated fails. A path of one component of exactly \<^verbatim>\<open>MAXNAMELEN\<close> bytes is
  refused with \<^verbatim>\<open>-E_BAD_PATH\<close>; and a path whose second component has 129 bytes is not
  refused as a bad path when its first component \<^verbatim>\<open>b\<close> is missing from the root
  directory: the walk returns \<^verbatim>\<open>-E_NOT_FOUND\<close> before it looks at the second.
\<close>

theorem walk_path_maxnamelen_counterexample:
  "components (c_str (replicate 128 97)) = [replicate 128 97] \<and>
   length (replicate 128 (97::byte)) = MAXNAMELEN \<and>
   walk_path small_fs (replicate 128 97) = Inr (small_fs, Some E_BAD_PATH, 0, 0, None) \<and>
   components (c_str (98 # slash # replicate 129 97)) = [[98], replicate 129 97] \<and>
   walk_path small_fs (98 # slash # replicate 129 97) = Inr (small_fs, Some E_NOT_FOUND, 0, 0, None)"
proof -
  have a: "walk_path small_fs (replicate 128 97) = Inr (small_fs, Some E_BAD_PATH, 0, 0, None)"
    by (simp add: walk_path_def walk_path_loop.simps[of _ "replicate 128 97"] name_128 skip_slash_id)
  define long :: "byte list" where "long = replicate 129 97"
  have long: "long \<noteq> []" "hd long \<noteq> slash" "slash \<notin> set long" "0 \<notin> set long"
    by (simp_all add: long_def)
  have tw: "takeWhile (\<lambda>c. c \<noteq> 0) long = long"
    using long by (auto simp: takeWhile_eq_all_conv)
  have c: "components (c_str (98 # slash # long)) = [[98], long]"
    using long by (simp add: c_str_def components_def split_slash_no_slash tw)
  have p1: "skip_slash (c_str (98 # slash # long)) = 98 # slash # long"
    using long by (simp add: c_str_def tw)
  have p2: "takeWhile (\<lambda>c. c \<noteq> slash) (98 # slash # long) = [98]" by simp
  have p3: "skip_slash (dropWhile (\<lambda>c. c \<noteq> slash) (98 # slash # long)) = long"
    using long by (simp add: skip_slash_id)
  have g: "file_get_block small_fs (super small_fs + OFF_s_root) 0 = Inr (small_fs, Inr 0x10003000)"
    by (simp add: eval_defs)
  have n: "find_name (mem small_fs) 0x10003000 [98] 0 = None"
    by (simp add: find_name.simps small_fs_def)
  have l: "dir_lookup small_fs (super small_fs + OFF_s_root) [98] = Inr (small_fs, Inl E_NOT_FOUND)"
    unfolding dir_lookup_def
    apply (subst dir_lookup_from.simps)
    apply (simp add: g n)
    apply (subst dir_lookup_from.simps)
    apply (simp add: eval_defs)
    done
  have t: "rd32 (mem small_fs) (super small_fs + OFF_s_root + OFF_f_type) = FTYPE_DIR"
    by (simp add: small_fs_def rd32_def)
  have b: "walk_path small_fs (98 # slash # long) = Inr (small_fs, Some E_NOT_FOUND, 0, 0, None)"
    unfolding walk_path_def p1
    apply (subst walk_path_loop.simps)
    apply (simp only: p2 p3 l t)
    using long apply simp
    done
  show ?thesis using a b c by (simp add: name_128 long_def)
qed

section \<open>Creating a file\<close>

lemma walk_path_loop_lastelem:
  "walk_path_loop s p dir fl = Inr (s', Some e, d, f, l) \<Longrightarrow> d \<noteq> 0 \<Longrightarrow>
     \<exists>name. l = Some name \<and> length name < MAXNAMELEN \<and> e = E_NOT_FOUND \<and> f = 0"
proof (induction s p dir fl rule: walk_path_loop.induct)
  case (1 s path dir fl)
  show ?case using "1.prems" "1.IH"
    by (subst (asm) walk_path_loop.simps)
       (auto split: if_splits sum.splits prod.splits)
qed

lemma walk_path_loop_lastelem_is_last:
  "walk_path_loop s p dir fl = Inr (s', rc, d, f, Some name) \<Longrightarrow> p = [] \<or> hd p \<noteq> slash \<Longrightarrow>
     components p \<noteq> [] \<and> name = last (components p)"
proof (induction s p dir fl rule: walk_path_loop.induct)
  case (1 s path dir fl)
  let ?name = "takeWhile (\<lambda>c. c \<noteq> slash) path"
  let ?rest = "skip_slash (dropWhile (\<lambda>c. c \<noteq> slash) path)"
  have ne: "path \<noteq> []" using "1.prems"(1) by (subst (asm) walk_path_loop.simps) (auto split: if_splits)
  then have cs: "components path = ?name # components ?rest"
    using components_cons[of path] "1.prems"(2) by simp
  have hd_rest: "?rest = [] \<or> hd ?rest \<noteq> slash"
    using skip_slash_hd[of "dropWhile (\<lambda>c. c \<noteq> slash) path"] by auto
  have "(name = ?name \<and> ?rest = []) \<or>
        (\<exists>s1 found. walk_path_loop s1 ?rest fl found = Inr (s', rc, d, f, Some name)
            \<and> \<not> MAXNAMELEN \<le> length ?name
            \<and> rd32 (mem s) (fl + OFF_f_type) = FTYPE_DIR
            \<and> dir_lookup s fl ?name = Inr (s1, Inr found))"
    using "1.prems"(1) ne
    by (subst (asm) walk_path_loop.simps) (auto split: if_splits sum.splits prod.splits)
  then show ?case
  proof
    assume "name = ?name \<and> ?rest = []"
    then show ?thesis using cs by (simp add: components_def)
  next
    assume "\<exists>s1 found. walk_path_loop s1 ?rest fl found = Inr (s', rc, d, f, Some name)
            \<and> \<not> MAXNAMELEN \<le> length ?name
            \<and> rd32 (mem s) (fl + OFF_f_type) = FTYPE_DIR
            \<and> dir_lookup s fl ?name = Inr (s1, Inr found)"
    then obtain s1 found where
      r: "walk_path_loop s1 ?rest fl found = Inr (s', rc, d, f, Some name)"
      and c: "\<not> MAXNAMELEN \<le> length ?name"
        "\<not> rd32 (mem s) (fl + OFF_f_type) \<noteq> FTYPE_DIR"
        "dir_lookup s fl ?name = Inr (s1, Inr found)" by auto
    from "1.IH"[OF ne c(1) c(2) c(3) _ _ r hd_rest]
    have "components ?rest \<noteq> [] \<and> name = last (components ?rest)" by simp
    then show ?thesis using cs by simp
  qed
qed

lemma strcpy_outside: "a < p \<or> p + length cs < a \<Longrightarrow> strcpy m p cs a = m a"
  by (induction cs arbitrary: m p) auto

lemma strcpy_stores: "str_eq (strcpy m p cs) p cs"
proof (induction cs arbitrary: m p)
  case Nil
  then show ?case by simp
next
  case (Cons c cs)
  have "strcpy (m(p := c)) (p + 1) cs p = (m(p := c)) p"
    by (rule strcpy_outside) simp
  then show ?case using Cons by simp
qed

lemma rd32_cong: "m' a = m a \<Longrightarrow> m' (a + 1) = m (a + 1) \<Longrightarrow> m' (a + 2) = m (a + 2)
    \<Longrightarrow> m' (a + 3) = m (a + 3) \<Longrightarrow> rd32 m' a = rd32 m a"
  by (simp add: rd32_def)

text \<open>
  C8. When the path walk of \<^verbatim>\<open>file_create\<close> returns \<^verbatim>\<open>-E_NOT_FOUND\<close> with a parent
  directory and \<^verbatim>\<open>dir_alloc_file\<close> then returns a slot \<open>f\<close>, the walk has left the final
  component of the path, of fewer than \<^verbatim>\<open>MAXNAMELEN\<close> bytes, in the name buffer;
  \<^verbatim>\<open>file_create\<close> returns 0 with \<open>f\<close>, and the state it leaves differs from the state
  after \<^verbatim>\<open>dir_alloc_file\<close> in memory only, and there only inside the 128 bytes of the name
  field of \<open>f\<close>, which now hold the final component as a string. The size, the type, the
  ten direct slots and the indirect slot of the record are what the slot held before.
\<close>

theorem file_create_writes_name_only:
  assumes w: "walk_path s path = Inr (s1, Some E_NOT_FOUND, dir, pf, le)"
    and d: "dir \<noteq> 0"
    and a: "dir_alloc_file s1 dir = Inr (s2, Inr f)"
  shows "\<exists>name s3. le = Some name \<and> length name < MAXNAMELEN \<and>
           components (c_str path) \<noteq> [] \<and> name = last (components (c_str path)) \<and>
           file_create s path = Inr (s3, Inr f) \<and>
           s3 = s2\<lparr>mem := mem s3\<rparr> \<and>
           str_eq (mem s3) (f + OFF_f_name) name \<and>
           (\<forall>b. b < f + OFF_f_name \<or> f + OFF_f_name + MAXNAMELEN \<le> b \<longrightarrow> mem s3 b = mem s2 b) \<and>
           rd32 (mem s3) (f + OFF_f_size) = rd32 (mem s2) (f + OFF_f_size) \<and>
           rd32 (mem s3) (f + OFF_f_type) = rd32 (mem s2) (f + OFF_f_type) \<and>
           (\<forall>i<NDIRECT. rd32 (mem s3) (f + OFF_f_direct + 4 * i)
                          = rd32 (mem s2) (f + OFF_f_direct + 4 * i)) \<and>
           rd32 (mem s3) (f + OFF_f_indirect) = rd32 (mem s2) (f + OFF_f_indirect)"
proof -
  from w d obtain name where le: "le = Some name" and len: "length name < MAXNAMELEN"
    using walk_path_loop_lastelem[of s "skip_slash (c_str path)" 0 "super s + OFF_s_root" s1
        E_NOT_FOUND dir pf le]
    by (auto simp: walk_path_def)
  have hd: "skip_slash (c_str path) = [] \<or> hd (skip_slash (c_str path)) \<noteq> slash"
    using skip_slash_hd[of "c_str path"] by auto
  have lastc: "components (c_str path) \<noteq> [] \<and> name = last (components (c_str path))"
    using walk_path_loop_lastelem_is_last[of s "skip_slash (c_str path)" 0 "super s + OFF_s_root" s1
        "Some E_NOT_FOUND" dir pf name, OF _ hd] w le
    by (simp add: walk_path_def components_skip_slash)
  define s3 where "s3 = s2\<lparr>mem := strcpy (mem s2) (f + OFF_f_name) name\<rparr>"
  have fc: "file_create s path = Inr (s3, Inr f)"
    using w d a le by (simp add: file_create_def s3_def)
  have out: "mem s3 b = mem s2 b" if "b < f \<or> f + MAXNAMELEN \<le> b" for b
  proof -
    have "b < f \<or> f + length name < b" using that len by auto
    then show ?thesis by (simp add: s3_def strcpy_outside)
  qed
  have fld: "rd32 (mem s3) (f + k) = rd32 (mem s2) (f + k)" if "MAXNAMELEN \<le> k" for k
    using that by (intro rd32_cong out) simp_all
  have st: "str_eq (mem s3) (f + OFF_f_name) name"
    using strcpy_stores[of "mem s2" f name] by (simp add: s3_def)
  have dir: "rd32 (mem s3) (f + OFF_f_direct + 4 * i) = rd32 (mem s2) (f + OFF_f_direct + 4 * i)" for i
    using fld[of "OFF_f_direct + 4 * i"] by (simp add: add.assoc)
  show ?thesis
    using le len lastc fc st out fld[of OFF_f_size] fld[of OFF_f_type] fld[of OFF_f_indirect] dir
    by (intro exI[of _ name] exI[of _ s3]) (simp add: s3_def)
qed

theorem file_create_writes_name_only_witness:
  "walk_path small_fs [slash, 98] = Inr (small_fs, Some E_NOT_FOUND, 0x10001008, 0, Some [98]) \<and>
   dir_alloc_file small_fs 0x10001008 = Inr (small_fs, Inr 0x10003100) \<and>
   rd32 (mem small_fs) (0x10003100 + OFF_f_type) = 1 \<and>
   (\<exists>s3. file_create small_fs [slash, 98] = Inr (s3, Inr 0x10003100)
        \<and> mem s3 0x10003100 = 98 \<and> mem s3 0x10003101 = 0
        \<and> rd32 (mem s3) (0x10003100 + OFF_f_type) = 1)"
proof -
  have g: "file_get_block small_fs 0x10001008 0 = Inr (small_fs, Inr 0x10003000)"
    by (simp add: eval_defs)
  have n: "find_name (mem small_fs) 0x10003000 [98] 0 = None"
    by (simp add: find_name.simps small_fs_def)
  have nb: "nblocks_of (rd32 (mem small_fs) (0x10001008 + OFF_f_size)) = 1"
    by (simp add: eval_defs)
  have l: "dir_lookup small_fs 0x10001008 [98] = Inr (small_fs, Inl E_NOT_FOUND)"
    unfolding dir_lookup_def nb
    apply (subst dir_lookup_from.simps)
    apply (simp add: g n)
    apply (subst dir_lookup_from.simps)
    apply simp
    done
  have t: "rd32 (mem small_fs) (0x10001008 + OFF_f_type) = FTYPE_DIR"
    by (simp add: small_fs_def rd32_def)
  have su: "super small_fs + OFF_s_root = 0x10001008" by (simp add: small_fs_def)
  have w: "walk_path small_fs [slash, 98] = Inr (small_fs, Some E_NOT_FOUND, 0x10001008, 0, Some [98])"
    unfolding walk_path_def su
    apply (simp add: c_str_def)
    apply (subst walk_path_loop.simps)
    using l t apply simp
    done
  have ff: "find_free (mem small_fs) 0x10003000 0 = Some 0x10003100"
    by (simp add: find_free.simps small_fs_def)
  have a: "dir_alloc_file small_fs 0x10001008 = Inr (small_fs, Inr 0x10003100)"
    unfolding dir_alloc_file_def nb
    apply (subst dir_alloc_file_from.simps)
    apply (simp add: g ff)
    done
  have ty: "rd32 (mem small_fs) (0x10003100 + OFF_f_type) = 1"
    by (simp add: small_fs_def rd32_def)
  from file_create_writes_name_only[OF w _ a]
  obtain s3 where "file_create small_fs [slash, 98] = Inr (s3, Inr 0x10003100)"
    "str_eq (mem s3) (0x10003100 + OFF_f_name) [98]"
    "rd32 (mem s3) (0x10003100 + OFF_f_type) = rd32 (mem small_fs) (0x10003100 + OFF_f_type)"
    by auto
  then show ?thesis using w a ty by auto
qed

section \<open>Allocating the indirect block\<close>

lemma and_not_and: "((w::u_int) AND NOT b) AND b = 0"
  by (rule bit_eqI) (auto simp: bit_simps)

lemma bitmap_block_other:
  assumes "3 \<le> (bno::nat)" "i < 4"
  shows "(268443648 + 4 * (bno div 32) + i) div 4096 \<noteq> (268435456 + bno * 4096) div 4096"
proof -
  have a: "(268443648 + 4 * (bno div 32) + i) div 4096 = 65538 + (4 * (bno div 32) + i) div 4096"
    by (simp add: add.assoc)
  have b: "(268435456 + bno * 4096) div 4096 = 65536 + bno" by simp
  have "(4 * (bno div 32) + i) div 4096 \<le> bno div 32 div 1024 + 1" using assms(2)
    by (simp add: div_le_mono)
  have c: "(4 * (bno div 32) + i) div 4096 \<le> (4 * (bno div 32) + 3) div 4096"
    using assms(2) by (intro div_le_mono) simp
  have d: "(4 * (bno div 32) + 3) div 4096 \<le> bno div 32" by (simp add: div_le_dividend)
  have e: "bno div 32 + 2 < bno" using assms(1) by (simp add: div_less_iff_less_mult)
  show ?thesis using a b c d e by linarith
qed


lemma alloc_block_ok:
  assumes ld: "fs_loaded s" and ab: "alloc_block s = Inr (s1, Inr bno)"
  shows "3 \<le> bno \<and> bno < s_nblocks s \<and> super s1 = super s \<and> bitmap s1 = bitmap s
         \<and> s_nblocks s1 = s_nblocks s
         \<and> va_is_mapped s1 (DISKMAP + bno * BY2BLK)
         \<and> rd32 (mem s1) (bitmap s + 4 * (bno div 32)) AND push_bit (bno mod 32) 1 = 0
         \<and> rd32 (mem s) (bitmap s + 4 * (bno div 32)) AND push_bit (bno mod 32) 1 \<noteq> 0"
proof -
  have su: "super s = 268439552" and bi: "bitmap s = 268443648" and nb: "s_nblocks s \<le> 262144"
    using ld by (simp_all add: fs_loaded_def)
  obtain sa u where num: "alloc_block_num_from s 3 = Inr (sa, Inr bno)"
    and mb: "map_block sa bno = Inr (s1, Inr u)"
    using ab by (auto simp: alloc_block_def alloc_block_num_def split: sum.splits)
  let ?bw = "bitmap s + 4 * (bno div 32)"
  let ?bit = "push_bit (bno mod 32) (1::u_int)"
  from alloc_block_num_from_ok[OF num]
  have b3: "3 \<le> bno" and lt: "bno < s_nblocks s"
    and isset: "rd32 (mem s) ?bw AND ?bit \<noteq> 0"
    and ma: "mem sa = wr32 (mem s) ?bw (rd32 (mem s) ?bw AND NOT ?bit)"
    and sua: "super sa = super s" and bia: "bitmap sa = bitmap s" by auto
  have nba: "s_nblocks sa = s_nblocks s"
    by (simp add: s_nblocks_def sua ma su bi rd32_wr32_other)
  have cla: "rd32 (mem sa) ?bw AND ?bit = 0"
    by (simp only: ma rd32_wr32_same and_not_and)
  let ?va = "DISKMAP + bno * BY2BLK"
  have bnd: "bno < 262144" using lt nb by simp
  have da: "diskaddr sa bno = Inr ?va"
    using lt nba bnd by (simp add: diskaddr_def)
  show ?thesis
  proof (cases "va_is_mapped sa ?va")
    case True
    then have "s1 = sa" using mb da by (simp add: map_block_def block_is_mapped_def)
    then show ?thesis using b3 lt sua bia nba True cla isset by simp
  next
    case False
    have ok: "\<not> UTOP \<le> ?va" using bnd by simp
    have s1: "s1 = sa\<lparr>mem := (\<lambda>a. if a div BY2PG = ?va div BY2PG then fresh sa (a mod BY2PG) else mem sa a),
              vpd := (vpd sa)(PDX ?va := vpd sa (PDX ?va) OR PTE_V),
              vpt := (vpt sa)(VPN ?va := PTE_V OR PTE_R),
              free_pages := free_pages sa - 1\<rparr>"
      using mb da False ok
      by (auto simp: map_block_def block_is_mapped_def syscall_mem_alloc_def split: if_splits)
    have keep: "mem s1 a = mem sa a" if "a div 4096 \<noteq> 65536 + bno" for a
      using that by (simp add: s1)
    have "rd32 (mem s1) 268439556 = rd32 (mem sa) 268439556"
      using b3 by (intro rd32_cong keep) simp_all
    moreover have "super s1 = super sa" by (simp add: s1)
    ultimately have nb1: "s_nblocks s1 = s_nblocks sa"
      by (simp add: s_nblocks_def sua su)
    have w1: "rd32 (mem s1) ?bw = rd32 (mem sa) ?bw"
      using bitmap_block_other[OF b3, of 0] bitmap_block_other[OF b3, of 1]
        bitmap_block_other[OF b3, of 2] bitmap_block_other[OF b3, of 3]
      by (intro rd32_cong keep) (simp_all add: bi add.assoc)
    have mp: "va_is_mapped s1 ?va"
    proof -
      have "(x OR PTE_V) AND PTE_V \<noteq> 0" for x :: u_int
        using mask_test_bit_pow[of 9 "x OR PTE_V"] by (simp add: bit_simps)
      then show ?thesis by (simp add: va_is_mapped_def s1)
    qed
    show ?thesis using b3 lt sua bia nba nb1 w1 cla isset mp by (simp add: s1)
  qed
qed

text \<open>
  What the walk does when it allocates the indirect block. In a loaded file system, for a
  file whose indirect field is 0 and lies outside the superblock's block count and
  outside the bitmap, and for \<open>NDIRECT \<le> filebno < NINDIRECT\<close>: when \<^verbatim>\<open>alloc_block\<close>
  returns block \<open>bno\<close>, that block was free and is now in use and resident, its number is
  stored in the indirect field, and the walk returns the address of entry \<open>filebno\<close> of
  the block. The walk writes the indirect field and nothing else: every other byte of
  memory, the contents of block \<open>bno\<close> included, is as \<^verbatim>\<open>alloc_block\<close> left it.
\<close>

lemma file_block_walk_alloc_indirect:
  assumes ld: "fs_loaded s"
    and rng: "NDIRECT \<le> filebno" "filebno < NINDIRECT"
    and none: "rd32 (mem s) (f + OFF_f_indirect) = 0"
    and ab: "alloc_block s = Inr (s1, Inr bno)"
    and fsup: "f + OFF_f_indirect + 4 \<le> super s + OFF_s_nblocks
               \<or> super s + OFF_s_nblocks + 4 \<le> f + OFF_f_indirect"
    and fbit: "f + OFF_f_indirect + 4 \<le> bitmap s
               \<or> bitmap s + 4 * (s_nblocks s div 32 + 1) \<le> f + OFF_f_indirect"
  shows "\<exists>s2. file_block_walk s f filebno True
                 = Inr (s2, Inr (DISKMAP + bno * BY2BLK + 4 * filebno))
          \<and> s2 = s1\<lparr>mem := wr32 (mem s1) (f + OFF_f_indirect) (word_of_nat bno)\<rparr>
          \<and> unat (rd32 (mem s2) (f + OFF_f_indirect)) = bno
          \<and> block_is_free s bno = Inr 1 \<and> block_is_free s2 bno = Inr 0
          \<and> va_is_mapped s2 (DISKMAP + bno * BY2BLK)
          \<and> (\<forall>a. a < f + OFF_f_indirect \<or> f + OFF_f_indirect + 4 \<le> a \<longrightarrow> mem s2 a = mem s1 a)"
proof -
  have su: "super s = 268439552" and bi: "bitmap s = 268443648" and nb: "s_nblocks s \<le> 262144"
    using ld by (simp_all add: fs_loaded_def)
  let ?bw = "bitmap s + 4 * (bno div 32)"
  let ?va = "DISKMAP + bno * BY2BLK"
  from alloc_block_ok[OF ld ab]
  have b3: "3 \<le> bno" and lt: "bno < s_nblocks s" and su1: "super s1 = super s"
    and bi1: "bitmap s1 = bitmap s" and nb1: "s_nblocks s1 = s_nblocks s"
    and mp1: "va_is_mapped s1 ?va"
    and cl1: "rd32 (mem s1) ?bw AND push_bit (bno mod 32) 1 = 0"
    and set0: "rd32 (mem s) ?bw AND push_bit (bno mod 32) 1 \<noteq> 0" by auto
  define s2 where "s2 = s1\<lparr>mem := wr32 (mem s1) (f + OFF_f_indirect) (word_of_nat bno)\<rparr>"
  have bnd: "bno < 262144" using lt nb by simp
  have un: "unat (word_of_nat bno :: u_int) = bno"
    using bnd by (simp add: unat_of_nat)
  have ind2: "rd32 (mem s2) (f + OFF_f_indirect) = word_of_nat bno"
    by (simp add: s2_def rd32_wr32_same)
  have nb2: "s_nblocks s2 = s_nblocks s"
    using fsup nb1 by (simp add: s_nblocks_def s2_def su1 rd32_wr32_other)
  have "bno div 32 \<le> s_nblocks s div 32" using lt by (simp add: div_le_mono)
  then have "f + OFF_f_indirect + 4 \<le> ?bw \<or> ?bw + 4 \<le> f + OFF_f_indirect"
    using fbit by auto
  then have cl2: "rd32 (mem s2) ?bw AND push_bit (bno mod 32) 1 = 0"
    using cl1 by (simp add: s2_def rd32_wr32_other)
  have mp2: "va_is_mapped s2 ?va" using mp1 by (simp add: va_is_mapped_def s2_def)
  have p2: "super s2 = super s" "bitmap s2 = bitmap s" by (simp_all add: s2_def su1 bi1)
  have fr2: "block_is_free s2 bno = Inr 0"
    using cl2 lt nb2 by (simp add: block_is_free_def p2 su bi)
  have fr0: "block_is_free s bno = Inr 1"
    using set0 lt by (simp add: block_is_free_def su bi)
  have da2: "diskaddr s2 bno = Inr ?va"
    using lt nb2 bnd by (simp add: diskaddr_def p2 su)
  have rb: "read_block s2 bno = Inr (s2, Inr (?va, 0))"
    using lt nb2 fr2 da2 mp2 by (simp add: read_block_def block_is_mapped_def p2 su bi)
  have walk: "file_block_walk s f filebno True = Inr (s2, Inr (?va + 4 * filebno))"
    using rng none ab rb ind2 un
    by (simp add: file_block_walk_def s2_def[symmetric])
  have out: "\<forall>a. a < f + OFF_f_indirect \<or> f + OFF_f_indirect + 4 \<le> a \<longrightarrow> mem s2 a = mem s1 a"
    by (simp add: s2_def wr32_outside)
  show ?thesis
    using walk ind2 un fr0 fr2 mp2 out by (intro exI[of _ s2]) (simp add: s2_def)
qed

lemma stale_loaded: "fs_loaded stale_fs"
  by (simp add: fs_loaded_def stale_fs_def eval_defs)

lemma stale_alloc: "\<exists>s1. alloc_block stale_fs = Inr (s1, Inr 4) \<and> mem s1 0x10004028 = 7"
  by (simp add: stale_fs_def alloc_block_num_from.simps eval_defs)

lemma file_block_walk_alloc_indirect_on_stale_fs:
  "fs_loaded stale_fs \<and> rd32 (mem stale_fs) (0x10003000 + OFF_f_indirect) = 0 \<and>
   (\<exists>s1 s2. alloc_block stale_fs = Inr (s1, Inr 4) \<and>
      file_block_walk stale_fs 0x10003000 10 True = Inr (s2, Inr 0x10004028) \<and>
      unat (rd32 (mem s2) (0x10003000 + OFF_f_indirect)) = 4 \<and>
      block_is_free stale_fs 4 = Inr 1 \<and> block_is_free s2 4 = Inr 0 \<and>
      mem s2 0x10004028 = mem s1 0x10004028 \<and> mem s2 0x10004028 = 7)"
proof -
  obtain s1 where ab: "alloc_block stale_fs = Inr (s1, Inr 4)" and st: "mem s1 0x10004028 = 7"
    using stale_alloc by blast
  have none: "rd32 (mem stale_fs) (0x10003000 + OFF_f_indirect) = 0"
    by (simp add: stale_fs_def eval_defs)
  have sb: "super stale_fs = 0x10001000" "bitmap stale_fs = 0x10002000"
    by (simp_all add: stale_fs_def small_fs_def)
  have nbs: "s_nblocks stale_fs = 8" by (simp add: stale_fs_def eval_defs)
  have r1: "NDIRECT \<le> (10::nat)" and r2: "(10::nat) < NINDIRECT" by simp_all
  have h1: "0x10003000 + OFF_f_indirect + 4 \<le> super stale_fs + OFF_s_nblocks
            \<or> super stale_fs + OFF_s_nblocks + 4 \<le> 0x10003000 + OFF_f_indirect"
    by (simp add: sb)
  have h2: "0x10003000 + OFF_f_indirect + 4 \<le> bitmap stale_fs
            \<or> bitmap stale_fs + 4 * (s_nblocks stale_fs div 32 + 1) \<le> 0x10003000 + OFF_f_indirect"
    by (simp add: sb nbs)
  from file_block_walk_alloc_indirect[OF stale_loaded r1 r2 none ab h1 h2]
  obtain s2 where "file_block_walk stale_fs 0x10003000 10 True = Inr (s2, Inr 0x10004028)"
    "unat (rd32 (mem s2) (0x10003000 + OFF_f_indirect)) = 4"
    "block_is_free stale_fs 4 = Inr 1" "block_is_free s2 4 = Inr 0"
    "mem s2 0x10004028 = mem s1 0x10004028"
    by (auto simp: sb)
  then show ?thesis using ab st none stale_loaded by auto
qed

text \<open>
  C4. In \<open>stale_fs\<close> the file \<^verbatim>\<open>a\<close> has no indirect block. The walk for \<open>filebno = 10\<close>
  with alloc requested allocates block 4, stores 4 in the indirect field and returns the
  address of entry 10 of block 4; the block has not been zeroed, and the entry holds 7.
  A slot that is not 0 names a block: \<^verbatim>\<open>file_map_block\<close> for the same file block then
  returns 7, a block that is free and that it has not allocated, and \<^verbatim>\<open>file_get_block\<close>
  ends in the panic of \<^verbatim>\<open>read_block\<close> on a free block.
\<close>

theorem file_block_walk_indirect_not_zeroed:
  "(case file_block_walk stale_fs 0x10003000 10 True of
      Inl a \<Rightarrow> False
    | Inr (s', Inl e) \<Rightarrow> False
    | Inr (s', Inr ptr) \<Rightarrow>
        rd32 (mem stale_fs) (0x10003000 + OFF_f_indirect) = 0 \<and>
        unat (rd32 (mem s') (0x10003000 + OFF_f_indirect)) = 4 \<and>
        ptr = DISKMAP + 4 * BY2BLK + 4 * 10 \<and> rd32 (mem s') ptr = 7) \<and>
   (case file_map_block stale_fs 0x10003000 10 True of
      Inl a \<Rightarrow> False
    | Inr (s', Inl e) \<Rightarrow> False
    | Inr (s', Inr diskbno) \<Rightarrow>
        diskbno = 7 \<and> block_is_free stale_fs 7 = Inr 1 \<and> block_is_free s' 7 = Inr 1) \<and>
   file_get_block stale_fs 0x10003000 10 = Inl Panic"
  by (simp add: stale_fs_def alloc_block_num_from.simps eval_defs)

end
